theory Spec2Isabelle
  imports Complex_Main
begin

section \<open>Tensors\<close>

text \<open>
  The agent of \<^verbatim>\<open>algos/offline/bear.py\<close> computes on torch tensors. A tensor is modelled
  as a nested list of reals, one list level per dimension: a batch of sample sets of
  shape \<open>B x N x d\<close> is a \<open>real list list list\<close>. Floating-point rounding is not
  modelled: every arithmetic operation is the exact operation on the reals.
\<close>

definition tensor_mean :: "real list \<Rightarrow> real" where
  \<comment> \<open>\<^verbatim>\<open>torch.mean\<close> over all the entries listed.\<close>
  "tensor_mean xs = sum_list xs / real (length xs)"

definition pairwise_diff :: "real list list \<Rightarrow> real list list \<Rightarrow> real list list list" where
  \<comment> \<open>\<^verbatim>\<open>a.unsqueeze(2) - b.unsqueeze(1)\<close> for one batch item: entry \<open>i, j\<close> is the
      vector \<open>a[i] - b[j]\<close> (\<open>N x N x d\<close>).\<close>
  "pairwise_diff a b = map (\<lambda>x. map (\<lambda>y. map2 (-) x y) b) a"

section \<open>The kernel similarity estimator\<close>

definition laplacian_kernel :: "real list list list \<Rightarrow> real list list list \<Rightarrow> real \<Rightarrow> real list list list" where
  \<comment> \<open>\<^verbatim>\<open>(-(diff.abs()).sum(-1)/(2.0 * sigma)).exp()\<close> with
      \<^verbatim>\<open>diff = a.unsqueeze(2) - b.unsqueeze(1)\<close> (\<open>B x N x N\<close>).\<close>
  "laplacian_kernel a b sigma =
     map (map (map (\<lambda>d. exp (- sum_list (map abs d) / (2 * sigma)))))
       (map2 pairwise_diff a b)"

definition gaussian_kernel :: "real list list list \<Rightarrow> real list list list \<Rightarrow> real \<Rightarrow> real list list list" where
  \<comment> \<open>\<^verbatim>\<open>(-(diff.pow(2)).sum(-1)/(2.0 * sigma)).exp()\<close> with
      \<^verbatim>\<open>diff = a.unsqueeze(2) - b.unsqueeze(1)\<close> (\<open>B x N x N\<close>).\<close>
  "gaussian_kernel a b sigma =
     map (map (map (\<lambda>d. exp (- sum_list (map (\<lambda>v. v ^ 2) d) / (2 * sigma)))))
       (map2 pairwise_diff a b)"

definition mean_dims_1_2 :: "real list list list \<Rightarrow> real list" where
  \<comment> \<open>\<^verbatim>\<open>torch.mean(t, dim=(1, 2))\<close> of a \<open>B x N x N\<close> tensor.\<close>
  "mean_dims_1_2 t = map (\<lambda>m. tensor_mean (concat m)) t"

definition mmd_combine :: "real list \<Rightarrow> real list \<Rightarrow> real list \<Rightarrow> real list" where
  \<comment> \<open>\<^verbatim>\<open>(diff_x_x + diff_y_y - 2.0 * diff_x_y + 1e-6).sqrt()\<close>, elementwise.\<close>
  "mmd_combine diff_x_x diff_x_y diff_y_y =
     map (\<lambda>(xx, xy, yy). sqrt (xx + yy - 2 * xy + 0.000001))
       (zip diff_x_x (zip diff_x_y diff_y_y))"

definition mmd_loss_laplacian :: "real list list list \<Rightarrow> real list list list \<Rightarrow> real \<Rightarrow> real list" where
  "mmd_loss_laplacian samples1 samples2 sigma =
     (let diff_x_x = mean_dims_1_2 (laplacian_kernel samples1 samples1 sigma);
          diff_x_y = mean_dims_1_2 (laplacian_kernel samples1 samples2 sigma);
          diff_y_y = mean_dims_1_2 (laplacian_kernel samples2 samples2 sigma)
      in mmd_combine diff_x_x diff_x_y diff_y_y)"

definition mmd_loss_gaussian :: "real list list list \<Rightarrow> real list list list \<Rightarrow> real \<Rightarrow> real list" where
  "mmd_loss_gaussian samples1 samples2 sigma =
     (let diff_x_x = mean_dims_1_2 (gaussian_kernel samples1 samples1 sigma);
          diff_x_y = mean_dims_1_2 (gaussian_kernel samples1 samples2 sigma);
          diff_y_y = mean_dims_1_2 (gaussian_kernel samples2 samples2 sigma)
      in mmd_combine diff_x_x diff_x_y diff_y_y)"

subsection \<open>The distances named by the specification\<close>

definition sq_euclidean :: "real list \<Rightarrow> real list \<Rightarrow> real" where
  "sq_euclidean x y = (\<Sum>k<length x. (x ! k - y ! k) ^ 2)"

definition l1_distance :: "real list \<Rightarrow> real list \<Rightarrow> real" where
  "l1_distance x y = (\<Sum>k<length x. \<bar>x ! k - y ! k\<bar>)"

definition spec_gaussian_term :: "real \<Rightarrow> real list \<Rightarrow> real list \<Rightarrow> real" where
  \<comment> \<open>The specification's words: squared Euclidean distance scaled by \<open>-1/(2\<sigma>\<^sup>2)\<close>.\<close>
  "spec_gaussian_term sigma x y = exp (- 1 / (2 * sigma ^ 2) * sq_euclidean x y)"

section \<open>The agent\<close>

text \<open>
  The networks, the optimizers, the replay buffer and the soft target update are used
  by \<^verbatim>\<open>BEAR_Agent\<close> but defined elsewhere (\<^verbatim>\<open>common.networks\<close>, \<^verbatim>\<open>common.buffers\<close>,
  \<^verbatim>\<open>utils.train_tools\<close>, \<^verbatim>\<open>torch.optim\<close>). They are parameters of the model, collected in
  the record \<open>substrate\<close>; \<open>'w\<close> is the type of a network's parameters (its
  \<^verbatim>\<open>state_dict\<close>), \<open>'o\<close> the type of an optimizer's state.

  \<^item> Sampling is made deterministic by a draw counter: the \<open>k\<close>-th stochastic call of a
    run receives \<open>k\<close>, and two calls with different counters are independent draws.
  \<^item> The policy and the critics are multi-layer perceptrons, applied to each row of a
    batch on its own: \<open>policy_row\<close> maps the parameters, the draw counter, the row index
    and an observation to \<^verbatim>\<open>(action, log_prob, mu_action)\<close>; \<open>q_row\<close> maps an
    observation and an action to the value estimate (the \<open>B x 1\<close> output column of the
    critic is a \<open>real list\<close> of length \<open>B\<close>).
  \<^item> \<^verbatim>\<open>opt.zero_grad(); loss.backward(); opt.step()\<close> is one call \<open>adam_step\<close> on the
    optimizer's state, the parameters it owns and the loss as a function of these
    parameters: the gradient buffers of the parameters are zeroed right before the
    backward pass of their own loss, so the step sees the gradient of that loss only.
    For the scalar multipliers the gradient is written out and handed to
    \<open>adam_step_scalar\<close>.
  \<^item> An optimizer keeps the tensors it was constructed with. \<^verbatim>\<open>load_state_dict\<close> of a
    network copies the loaded values into these tensors, but \<^verbatim>\<open>load_agent_checkpoint\<close>
    binds the attributes \<^verbatim>\<open>log_alpha\<close> and \<^verbatim>\<open>log_alpha_prime\<close> to the loaded tensors, which
    the optimizers do not know: from then on the backward pass of a multiplier's loss
    does not reach the optimizer's parameter, and a step of that optimizer
    (\<open>adam_step_stale\<close>) does not change the attribute.
\<close>

datatype error = ReshapeInvalid | ArgmaxEmpty | AttributeError | KeyError string

record batch =
  b_obs :: "real list list"
  b_acts :: "real list list"
  b_rews :: "real list"
  b_next_obs :: "real list list"
  b_done :: "real list"

record ('w, 'o) substrate =
  sample :: "nat \<Rightarrow> batch"
  policy_row :: "'w \<Rightarrow> nat \<Rightarrow> nat \<Rightarrow> real list \<Rightarrow> real list \<times> real \<times> real list"
  sample_multiple_without_squash :: "'w \<Rightarrow> nat \<Rightarrow> real list list \<Rightarrow> nat \<Rightarrow> real list list list"
  q_row :: "'w \<Rightarrow> real list \<Rightarrow> real list \<Rightarrow> real"
  cvae_forward :: "'w \<Rightarrow> nat \<Rightarrow> real list list \<Rightarrow> real list list
                     \<Rightarrow> real list list \<times> real list list \<times> real list list"
  loss_function :: "real list list \<Rightarrow> real list list \<Rightarrow> real list list \<Rightarrow> real list list \<Rightarrow> real"
  decode_multiple_without_squash :: "'w \<Rightarrow> nat \<Rightarrow> real list list \<Rightarrow> nat \<Rightarrow> real list list list"
  adam_init :: "real \<Rightarrow> 'w \<Rightarrow> 'o"
  adam_init_scalar :: "real \<Rightarrow> real \<Rightarrow> 'o"
  adam_step :: "'o \<Rightarrow> 'w \<Rightarrow> ('w \<Rightarrow> real) \<Rightarrow> 'o \<times> 'w"
  adam_step_scalar :: "'o \<Rightarrow> real \<Rightarrow> real \<Rightarrow> 'o \<times> real"
  adam_step_stale :: "'o \<Rightarrow> 'o"
  soft_target_update :: "'w \<Rightarrow> 'w \<Rightarrow> real \<Rightarrow> 'w"

text \<open>The arguments of the constructor that are numbers, flags or names.\<close>

record hparams =
  policy_lr :: real
  qf_lr :: real
  cvae_lr :: real
  gamma :: real
  tau :: real
  alpha_init :: real
  auto_alpha_tuning :: bool
  action_dim :: nat
  lmbda :: real
  mmd_sigma :: real
  kernel_type :: string
  lagrange_thresh :: real
  n_action_samples :: nat
  n_target_samples :: nat
  n_mmd_action_samples :: nat
  warmup_step :: int

text \<open>
  The attributes of \<^verbatim>\<open>self\<close> that the methods below read or write. \<open>log_alpha\<close> and
  \<open>alpha_optimizer\<close> exist only when \<^verbatim>\<open>auto_alpha_tuning\<close> is set. \<open>log_alpha_prime_grad\<close>
  is the gradient buffer \<^verbatim>\<open>self.log_alpha_prime.grad\<close> (\<^verbatim>\<open>None\<close> is read as \<open>0\<close>): two
  backward passes of a training step write to it. \<open>log_alpha_owned\<close> and
  \<open>log_alpha_prime_owned\<close> say whether the tensor that the attribute names is the
  parameter of its optimizer. \<open>rng\<close> is the draw counter.
\<close>

record ('w, 'o) agent =
  hp :: hparams
  policy_net :: 'w
  q_net1 :: 'w
  q_net2 :: 'w
  target_q_net1 :: 'w
  target_q_net2 :: 'w
  cvae_net :: 'w
  policy_optimizer :: 'o
  q_optimizer1 :: 'o
  q_optimizer2 :: 'o
  cvae_optimizer :: 'o
  alpha :: real
  log_alpha :: "real option"
  log_alpha_owned :: bool
  alpha_optimizer :: "'o option"
  train_step :: int
  log_alpha_prime :: real
  log_alpha_prime_grad :: real
  log_alpha_prime_owned :: bool
  alpha_prime_optimizer :: 'o
  rng :: nat

definition target_entropy :: "('w, 'o) agent \<Rightarrow> real" where
  \<comment> \<open>\<^verbatim>\<open>-np.prod(self.env.action_space.shape).item()\<close>\<close>
  "target_entropy s = - real (action_dim (hp s))"

definition BEAR_Agent_init ::
  "('w, 'o) substrate \<Rightarrow> hparams \<Rightarrow> 'w \<Rightarrow> 'w \<Rightarrow> 'w \<Rightarrow> 'w \<Rightarrow> nat \<Rightarrow> ('w, 'o) agent" where
  \<comment> \<open>\<^verbatim>\<open>__init__\<close>: the target critics are deep copies of the critics.\<close>
  "BEAR_Agent_init N h policy q1 q2 cvae seed =
     \<lparr> hp = h,
       policy_net = policy, q_net1 = q1, q_net2 = q2,
       target_q_net1 = q1, target_q_net2 = q2,
       cvae_net = cvae,
       policy_optimizer = adam_init N (policy_lr h) policy,
       q_optimizer1 = adam_init N (qf_lr h) q1,
       q_optimizer2 = adam_init N (qf_lr h) q2,
       cvae_optimizer = adam_init N (cvae_lr h) cvae,
       alpha = (if auto_alpha_tuning h then exp 0 else alpha_init h),
       log_alpha = (if auto_alpha_tuning h then Some 0 else None),
       log_alpha_owned = True,
       alpha_optimizer =
         (if auto_alpha_tuning h then Some (adam_init_scalar N (policy_lr h) 0) else None),
       train_step = 0,
       log_alpha_prime = 0,
       log_alpha_prime_grad = 0,
       log_alpha_prime_owned = True,
       alpha_prime_optimizer = adam_init_scalar N 0.001 0,
       rng = seed \<rparr>"

subsection \<open>Forward passes\<close>

definition policy_forward ::
  "('w, 'o) substrate \<Rightarrow> 'w \<Rightarrow> nat \<Rightarrow> real list list
     \<Rightarrow> real list list \<times> real list \<times> real list list" where
  \<comment> \<open>\<^verbatim>\<open>self.policy_net(obs)\<close> at draw counter \<open>k\<close>.\<close>
  "policy_forward N w k obs =
     (let rows = map2 (policy_row N w k) [0..<length obs] obs
      in (map fst rows, map (fst \<circ> snd) rows, map (snd \<circ> snd) rows))"

definition q_forward :: "('w, 'o) substrate \<Rightarrow> 'w \<Rightarrow> real list list \<Rightarrow> real list list \<Rightarrow> real list" where
  \<comment> \<open>\<^verbatim>\<open>q_net(obs, action)\<close>, one estimate per row.\<close>
  "q_forward N w obs acts = map2 (q_row N w) obs acts"

subsection \<open>Action selection\<close>

fun argmax_from :: "nat \<Rightarrow> real \<Rightarrow> nat \<Rightarrow> real list \<Rightarrow> nat" where
  "argmax_from best v i [] = best"
| "argmax_from best v i (x # xs) =
     (if v < x then argmax_from i x (Suc i) xs else argmax_from best v (Suc i) xs)"

definition argmax :: "real list \<Rightarrow> error + nat" where
  \<comment> \<open>\<^verbatim>\<open>q.argmax(dim=0)\<close>: the first index of a greatest entry; raises on an empty
      dimension.\<close>
  "argmax xs = (case xs of [] \<Rightarrow> Inl ArgmaxEmpty | x # ys \<Rightarrow> Inr (argmax_from 0 x 1 ys))"

definition choose_action ::
  "('w, 'o) substrate \<Rightarrow> ('w, 'o) agent \<Rightarrow> real list \<Rightarrow> bool \<Rightarrow> error + real list" where
  \<comment> \<open>Lines 113-119. The method changes no attribute; the draw it consumes is not
      counted.\<close>
  "choose_action N s obs eval =
     (let obs = replicate (n_action_samples (hp s)) obs;
          (action, log_prob, mu_action) = policy_forward N (policy_net s) (rng s) obs;
          q1 = q_forward N (q_net1 s) obs action
      in case argmax q1 of
           Inl e \<Rightarrow> Inl e
         | Inr ind \<Rightarrow> Inr (action ! ind))"

subsection \<open>One training step\<close>

definition mse_loss :: "real list \<Rightarrow> real list \<Rightarrow> real" where
  "mse_loss a b = tensor_mean (map2 (\<lambda>x y. (x - y) ^ 2) a b)"

definition repeat_interleave :: "nat \<Rightarrow> 'a list \<Rightarrow> 'a list" where
  \<comment> \<open>\<^verbatim>\<open>torch.repeat_interleave(t, repeats=n, dim=0)\<close>\<close>
  "repeat_interleave n xs = concat (map (replicate n) xs)"

definition reshape_groups :: "nat \<Rightarrow> nat \<Rightarrow> real list \<Rightarrow> error + real list list" where
  \<comment> \<open>\<^verbatim>\<open>t.reshape(r, c, 1)\<close> of a column of \<open>length t\<close> entries: \<open>r\<close> groups of \<open>c\<close>
      consecutive entries; raises when the number of entries is not \<open>r * c\<close>.\<close>
  "reshape_groups r c t =
     (if length t = r * c then Inr (map (\<lambda>i. take c (drop (i * c) t)) [0..<r])
      else Inl ReshapeInvalid)"

fun max_group :: "real list \<Rightarrow> real" where
  \<comment> \<open>\<^verbatim>\<open>.max(1)[0]\<close> of one group; a group has 10 entries, so never none.\<close>
  "max_group (x # xs) = fold max xs x"

definition update_cvae ::
  "('w, 'o) substrate \<Rightarrow> ('w, 'o) agent \<Rightarrow> batch \<Rightarrow> nat \<Rightarrow> ('w, 'o) agent" where
  \<comment> \<open>Lines 164-169.\<close>
  "update_cvae N s b k =
     (let cvae_loss = (\<lambda>w. case cvae_forward N w k (b_obs b) (b_acts b) of
                             (recon_action, mu, log_std) \<Rightarrow>
                               loss_function N recon_action (b_acts b) mu log_std);
          (opt, w) = adam_step N (cvae_optimizer s) (cvae_net s) cvae_loss
      in s\<lparr>cvae_net := w, cvae_optimizer := opt\<rparr>)"

definition critic_target ::
  "('w, 'o) substrate \<Rightarrow> ('w, 'o) agent \<Rightarrow> batch \<Rightarrow> nat \<Rightarrow> error + real list" where
  \<comment> \<open>Lines 174-184. The policy is called twice, at the draw counters \<open>k\<close> and \<open>k + 1\<close>.\<close>
  "critic_target N s b k =
     (let next_obs = repeat_interleave (n_target_samples (hp s)) (b_next_obs b);
          target_q1 = q_forward N (target_q_net1 s) next_obs
                        (fst (policy_forward N (policy_net s) k next_obs));
          target_q2 = q_forward N (target_q_net2 s) next_obs
                        (fst (policy_forward N (policy_net s) (k + 1) next_obs));
          target_q = map2 (\<lambda>t1 t2. lmbda (hp s) * min t1 t2 + (1 - lmbda (hp s)) * max t1 t2)
                       target_q1 target_q2
      in case reshape_groups (length (b_obs b)) 10 target_q of
           Inl e \<Rightarrow> Inl e
         | Inr groups \<Rightarrow>
             Inr (map (\<lambda>(rew, done, t). rew + gamma (hp s) * (1 - done) * t)
                    (zip (b_rews b) (zip (b_done b) (map max_group groups)))))"

definition update_critics ::
  "('w, 'o) substrate \<Rightarrow> ('w, 'o) agent \<Rightarrow> batch \<Rightarrow> real list
     \<Rightarrow> ('w, 'o) agent \<times> real \<times> real" where
  \<comment> \<open>Lines 187-199.\<close>
  "update_critics N s b target_q =
     (let critic_loss = (\<lambda>w. mse_loss (q_forward N w (b_obs b) (b_acts b)) target_q);
          (opt1, w1) = adam_step N (q_optimizer1 s) (q_net1 s) critic_loss;
          (opt2, w2) = adam_step N (q_optimizer2 s) (q_net2 s) critic_loss
      in (s\<lparr>q_net1 := w1, q_optimizer1 := opt1, q_net2 := w2, q_optimizer2 := opt2\<rparr>,
          critic_loss (q_net1 s), critic_loss (q_net2 s)))"

definition mmd_loss ::
  "('w, 'o) substrate \<Rightarrow> ('w, 'o) agent \<Rightarrow> real list list \<Rightarrow> nat \<Rightarrow> 'w \<Rightarrow> real list" where
  \<comment> \<open>Lines 203-209, as a function of the policy's parameters.\<close>
  "mmd_loss N s obs k policy =
     (let raw_sampled_actions =
            decode_multiple_without_squash N (cvae_net s) k obs (n_mmd_action_samples (hp s));
          raw_actor_actions =
            sample_multiple_without_squash N policy (k + 1) obs (n_mmd_action_samples (hp s))
      in if kernel_type (hp s) = ''gaussian''
         then mmd_loss_gaussian raw_sampled_actions raw_actor_actions (mmd_sigma (hp s))
         else mmd_loss_laplacian raw_sampled_actions raw_actor_actions (mmd_sigma (hp s)))"

definition alpha_prime_loss :: "real \<Rightarrow> real \<Rightarrow> real list \<Rightarrow> real" where
  \<comment> \<open>\<^verbatim>\<open>-(log_alpha_prime.exp() * (mmd_loss - lagrange_thresh)).mean()\<close>\<close>
  "alpha_prime_loss thresh l mmd = - tensor_mean (map (\<lambda>m. exp l * (m - thresh)) mmd)"

definition alpha_prime_loss_grad :: "real \<Rightarrow> real \<Rightarrow> real list \<Rightarrow> real" where
  \<comment> \<open>The derivative of \<open>alpha_prime_loss\<close> in \<open>l\<close>.\<close>
  "alpha_prime_loss_grad thresh l mmd = - tensor_mean (map (\<lambda>m. exp l * (m - thresh)) mmd)"

definition clamp :: "real \<Rightarrow> real \<Rightarrow> real \<Rightarrow> real" where
  \<comment> \<open>\<^verbatim>\<open>x.clamp_(min=lo, max=hi)\<close>\<close>
  "clamp lo hi x = min (max x lo) hi"

definition update_alpha_prime ::
  "('w, 'o) substrate \<Rightarrow> ('w, 'o) agent \<Rightarrow> real list \<Rightarrow> ('w, 'o) agent \<times> real" where
  \<comment> \<open>Lines 214-219. \<^verbatim>\<open>zero_grad\<close> empties the buffer of the optimizer's parameter, the
      backward pass adds to the buffer of \<^verbatim>\<open>self.log_alpha_prime\<close>, the step changes the
      optimizer's parameter, the clamp is on \<^verbatim>\<open>self.log_alpha_prime\<close>.\<close>
  "update_alpha_prime N s mmd =
     (let loss = alpha_prime_loss (lagrange_thresh (hp s)) (log_alpha_prime s) mmd;
          grad = alpha_prime_loss_grad (lagrange_thresh (hp s)) (log_alpha_prime s) mmd
      in if log_alpha_prime_owned s then
           (let (opt, l) = adam_step_scalar N (alpha_prime_optimizer s) (log_alpha_prime s)
                             (0 + grad)
            in (s\<lparr>log_alpha_prime := clamp (- 5) 10 l, log_alpha_prime_grad := 0 + grad,
                   alpha_prime_optimizer := opt\<rparr>, loss))
         else
           (s\<lparr>log_alpha_prime := clamp (- 5) 10 (log_alpha_prime s),
              log_alpha_prime_grad := log_alpha_prime_grad s + grad,
              alpha_prime_optimizer := adam_step_stale N (alpha_prime_optimizer s)\<rparr>, loss))"

definition policy_loss ::
  "('w, 'o) substrate \<Rightarrow> ('w, 'o) agent \<Rightarrow> real list list \<Rightarrow> nat \<Rightarrow> 'w \<Rightarrow> real" where
  \<comment> \<open>Lines 226-228, as a function of the policy's parameters.\<close>
  "policy_loss N s obs k policy =
     (let (a, log_prob, mu_action) = policy_forward N policy k obs;
          min_q = map2 min (q_forward N (q_net1 s) obs a) (q_forward N (q_net2 s) obs a)
      in tensor_mean (map2 (\<lambda>lp q. alpha s * lp - q) log_prob min_q))"

definition bear_loss :: "real \<Rightarrow> real list \<Rightarrow> real" where
  \<comment> \<open>\<^verbatim>\<open>(self.log_alpha_prime.exp() * mmd_loss).mean()\<close>\<close>
  "bear_loss l mmd = tensor_mean (map (\<lambda>m. exp l * m) mmd)"

definition bear_loss_grad :: "real \<Rightarrow> real list \<Rightarrow> real" where
  \<comment> \<open>The derivative of \<open>bear_loss\<close> in \<open>l\<close>.\<close>
  "bear_loss_grad l mmd = tensor_mean (map (\<lambda>m. exp l * m) mmd)"

definition actor_loss ::
  "('w, 'o) substrate \<Rightarrow> ('w, 'o) agent \<Rightarrow> real list list \<Rightarrow> nat \<Rightarrow> nat \<Rightarrow> 'w \<Rightarrow> real" where
  \<comment> \<open>Lines 231-233, as a function of the policy's parameters: \<open>km\<close> is the draw counter
      of the support distance, \<open>kp\<close> that of the policy's forward pass.\<close>
  "actor_loss N s obs km kp policy =
     (let actor_loss = bear_loss (log_alpha_prime s) (mmd_loss N s obs km policy)
      in if train_step s > warmup_step (hp s)
         then policy_loss N s obs kp policy + actor_loss
         else actor_loss)"

definition update_actor ::
  "('w, 'o) substrate \<Rightarrow> ('w, 'o) agent \<Rightarrow> real list list \<Rightarrow> nat \<Rightarrow> nat
     \<Rightarrow> ('w, 'o) agent" where
  \<comment> \<open>Lines 234-236. The backward pass of \<open>actor_loss\<close> also reaches
      \<^verbatim>\<open>log_alpha_prime\<close>, whose buffer was last written by \<open>update_alpha_prime\<close>.\<close>
  "update_actor N s obs km kp =
     (let (opt, w) = adam_step N (policy_optimizer s) (policy_net s) (actor_loss N s obs km kp)
      in s\<lparr>policy_net := w, policy_optimizer := opt,
            log_alpha_prime_grad :=
              log_alpha_prime_grad s
                + bear_loss_grad (log_alpha_prime s) (mmd_loss N s obs km (policy_net s))\<rparr>)"

definition alpha_loss :: "real \<Rightarrow> real \<Rightarrow> real list \<Rightarrow> real" where
  \<comment> \<open>\<^verbatim>\<open>-(self.log_alpha * (log_prob + self.target_entropy).detach()).mean()\<close>\<close>
  "alpha_loss entropy l log_prob = - tensor_mean (map (\<lambda>lp. l * (lp + entropy)) log_prob)"

definition alpha_loss_grad :: "real \<Rightarrow> real list \<Rightarrow> real" where
  \<comment> \<open>The derivative of \<open>alpha_loss\<close> in \<open>l\<close>.\<close>
  "alpha_loss_grad entropy log_prob = - tensor_mean (map (\<lambda>lp. lp + entropy) log_prob)"

definition update_alpha ::
  "('w, 'o) substrate \<Rightarrow> ('w, 'o) agent \<Rightarrow> real list \<Rightarrow> error + ('w, 'o) agent \<times> real" where
  \<comment> \<open>Lines 241-249.\<close>
  "update_alpha N s log_prob =
     (if auto_alpha_tuning (hp s) then
        (case (log_alpha s, alpha_optimizer s) of
           (Some l, Some opt) \<Rightarrow>
             (let loss = alpha_loss (target_entropy s) l log_prob;
                  grad = alpha_loss_grad (target_entropy s) log_prob
              in if log_alpha_owned s then
                   (let (opt', l') = adam_step_scalar N opt l grad
                    in Inr (s\<lparr>log_alpha := Some l', alpha_optimizer := Some opt',
                              alpha := exp l'\<rparr>, loss))
                 else
                   Inr (s\<lparr>alpha_optimizer := Some (adam_step_stale N opt), alpha := exp l\<rparr>,
                        loss))
         | _ \<Rightarrow> Inl AttributeError)
      else Inr (s, 0))"

definition train ::
  "('w, 'o) substrate \<Rightarrow> ('w, 'o) agent
     \<Rightarrow> error + ('w, 'o) agent \<times> (real \<times> real \<times> real \<times> real \<times> real)" where
  \<comment> \<open>The draw counters, in the order of the calls: the batch \<open>k\<close>, the behaviour
      model's forward pass \<open>k + 1\<close>, the two policy calls of the target \<open>k + 2\<close> and
      \<open>k + 3\<close>, the decoder \<open>k + 4\<close>, the policy's samples \<open>k + 5\<close>, the policy's forward
      pass of the actor loss \<open>k + 6\<close>. The five losses returned are
      \<^verbatim>\<open>critic_loss1\<close>, \<^verbatim>\<open>critic_loss2\<close>, \<^verbatim>\<open>policy_loss\<close>, \<^verbatim>\<open>alpha_loss\<close> and
      \<^verbatim>\<open>alpha_prime_loss\<close>.\<close>
  "train N s =
     (let k = rng s;
          b = sample N k;
          s = update_cvae N s b (k + 1)
      in case critic_target N s b (k + 2) of
           Inl e \<Rightarrow> Inl e
         | Inr target_q \<Rightarrow>
             (let (s, critic_loss1, critic_loss2) = update_critics N s b target_q;
                  mmd = mmd_loss N s (b_obs b) (k + 4) (policy_net s);
                  (s, multiplier_loss) = update_alpha_prime N s mmd;
                  actor_critic_loss = policy_loss N s (b_obs b) (k + 6) (policy_net s);
                  log_prob = fst (snd (policy_forward N (policy_net s) (k + 6) (b_obs b)));
                  s = update_actor N s (b_obs b) (k + 4) (k + 6)
              in case update_alpha N s log_prob of
                   Inl e \<Rightarrow> Inl e
                 | Inr (s, temperature_loss) \<Rightarrow>
                     Inr (s\<lparr>target_q_net1 :=
                              soft_target_update N (q_net1 s) (target_q_net1 s) (tau (hp s)),
                            target_q_net2 :=
                              soft_target_update N (q_net2 s) (target_q_net2 s) (tau (hp s)),
                            train_step := train_step s + 1,
                            rng := k + 7\<rparr>,
                          (critic_loss1, critic_loss2, actor_critic_loss, temperature_loss,
                           multiplier_loss))))"

fun train_steps ::
  "('w, 'o) substrate \<Rightarrow> nat \<Rightarrow> ('w, 'o) agent \<Rightarrow> error + ('w, 'o) agent" where
  \<comment> \<open>\<open>n\<close> calls of \<^verbatim>\<open>train\<close> in a row, as the loop of \<^verbatim>\<open>learn\<close> makes them.\<close>
  "train_steps N 0 s = Inr s"
| "train_steps N (Suc n) s =
     (case train N s of Inl e \<Rightarrow> Inl e | Inr (s', losses) \<Rightarrow> train_steps N n s')"

subsection \<open>Checkpoints\<close>

text \<open>
  The record written by \<^verbatim>\<open>torch.save\<close>: a dictionary whose keys \<^verbatim>\<open>log_alpha\<close> and
  \<^verbatim>\<open>alpha_optimizer\<close> are present only when the saving agent tunes the temperature.
\<close>

record ('w, 'o) checkpoint =
  ck_q_net1 :: 'w
  ck_q_net2 :: 'w
  ck_policy_net :: 'w
  ck_q_optimizer1 :: 'o
  ck_q_optimizer2 :: 'o
  ck_policy_optimizer :: 'o
  ck_train_step :: int
  ck_log_alpha :: "real option"
  ck_alpha_optimizer :: "'o option"
  ck_log_alpha_prime :: real
  ck_alpha_prime_optimizer :: 'o

definition store_agent_checkpoint :: "('w, 'o) agent \<Rightarrow> error + ('w, 'o) checkpoint" where
  "store_agent_checkpoint s =
     (let checkpoint =
            \<lparr> ck_q_net1 = q_net1 s, ck_q_net2 = q_net2 s, ck_policy_net = policy_net s,
              ck_q_optimizer1 = q_optimizer1 s, ck_q_optimizer2 = q_optimizer2 s,
              ck_policy_optimizer = policy_optimizer s,
              ck_train_step = train_step s,
              ck_log_alpha = None, ck_alpha_optimizer = None,
              ck_log_alpha_prime = log_alpha_prime s,
              ck_alpha_prime_optimizer = alpha_prime_optimizer s \<rparr>
      in if auto_alpha_tuning (hp s) then
           (case (log_alpha s, alpha_optimizer s) of
              (Some l, Some opt) \<Rightarrow>
                Inr (checkpoint\<lparr>ck_log_alpha := Some l, ck_alpha_optimizer := Some opt\<rparr>)
            | _ \<Rightarrow> Inl AttributeError)
         else Inr checkpoint)"

definition load_agent_checkpoint ::
  "('w, 'o) checkpoint \<Rightarrow> ('w, 'o) agent \<Rightarrow> error + ('w, 'o) agent" where
  \<comment> \<open>The loaded \<^verbatim>\<open>log_alpha\<close> and \<^verbatim>\<open>log_alpha_prime\<close> are new tensors, with empty
      gradient buffers; the optimizers keep the old ones.\<close>
  "load_agent_checkpoint checkpoint s =
     (let s = s\<lparr>q_net1 := ck_q_net1 checkpoint, q_net2 := ck_q_net2 checkpoint,
                policy_net := ck_policy_net checkpoint,
                q_optimizer1 := ck_q_optimizer1 checkpoint,
                q_optimizer2 := ck_q_optimizer2 checkpoint,
                policy_optimizer := ck_policy_optimizer checkpoint,
                train_step := ck_train_step checkpoint\<rparr>;
          finish = (\<lambda>s. s\<lparr>log_alpha_prime := ck_log_alpha_prime checkpoint,
                          log_alpha_prime_grad := 0,
                          log_alpha_prime_owned := False,
                          alpha_prime_optimizer := ck_alpha_prime_optimizer checkpoint\<rparr>)
      in if auto_alpha_tuning (hp s) then
           (case ck_log_alpha checkpoint of
              None \<Rightarrow> Inl (KeyError ''log_alpha'')
            | Some l \<Rightarrow>
                (case alpha_optimizer s of
                   None \<Rightarrow> Inl AttributeError
                 | Some opt \<Rightarrow>
                     (case ck_alpha_optimizer checkpoint of
                        None \<Rightarrow> Inl (KeyError ''alpha_optimizer'')
                      | Some opt' \<Rightarrow>
                          Inr (finish (s\<lparr>log_alpha := Some l, log_alpha_owned := False,
                                         alpha_optimizer := Some opt'\<rparr>)))))
         else Inr (finish s))"

definition save_then_load :: "('w, 'o) agent \<Rightarrow> ('w, 'o) agent \<Rightarrow> error + ('w, 'o) agent" where
  \<comment> \<open>\<^verbatim>\<open>s.store_agent_checkpoint()\<close>, then \<^verbatim>\<open>t.load_agent_checkpoint()\<close> on the file
      written.\<close>
  "save_then_load s t =
     (case store_agent_checkpoint s of
        Inl e \<Rightarrow> Inl e
      | Inr checkpoint \<Rightarrow> load_agent_checkpoint checkpoint t)"

subsection \<open>The critic target in the specification's words\<close>

definition spec_critic_target ::
  "('w, 'o) substrate \<Rightarrow> ('w, 'o) agent \<Rightarrow> batch \<Rightarrow> nat \<Rightarrow> error + real list" where
  \<comment> \<open>Every next observation is repeated \<open>n_target_samples\<close> times, one action per copy
      is drawn, both target critics are evaluated on it, the two estimates are combined
      per draw, and the greatest of the \<open>n_target_samples\<close> draws of a next observation
      enters the bootstrap.\<close>
  "spec_critic_target N s b k =
     (let next_obs = repeat_interleave (n_target_samples (hp s)) (b_next_obs b);
          action = fst (policy_forward N (policy_net s) k next_obs);
          target_q1 = q_forward N (target_q_net1 s) next_obs action;
          target_q2 = q_forward N (target_q_net2 s) next_obs action;
          target_q = map2 (\<lambda>t1 t2. lmbda (hp s) * min t1 t2 + (1 - lmbda (hp s)) * max t1 t2)
                       target_q1 target_q2
      in case reshape_groups (length (b_next_obs b)) (n_target_samples (hp s)) target_q of
           Inl e \<Rightarrow> Inl e
         | Inr groups \<Rightarrow>
             Inr (map (\<lambda>(rew, done, t). rew + gamma (hp s) * (1 - done) * t)
                    (zip (b_rews b) (zip (b_done b) (map max_group groups)))))"

section \<open>A small instance\<close>

text \<open>
  A concrete substrate on which the definitions can be run: every network has one real
  parameter, the policy's action is the draw counter plus a term that depends on the row,
  a critic multiplies its parameter with the action, and an optimizer state counts steps.
\<close>

definition toy_batch :: batch where
  "toy_batch = \<lparr> b_obs = [[1]], b_acts = [[0]], b_rews = [1], b_next_obs = [[2]], b_done = [0] \<rparr>"

definition toy_substrate :: "(real, nat) substrate" where
  "toy_substrate =
     \<lparr> sample = (\<lambda>k. toy_batch),
       policy_row = (\<lambda>w k i obs. ([real k + real i * (2 - real i)], 0, [w])),
       sample_multiple_without_squash = (\<lambda>w k obs n. map (\<lambda>x. replicate n [w]) obs),
       q_row = (\<lambda>w obs a. w * sum_list a),
       cvae_forward = (\<lambda>w k obs acts. (acts, [], [])),
       loss_function = (\<lambda>recon acts mu log_std. 0),
       decode_multiple_without_squash = (\<lambda>w k obs n. map (\<lambda>x. replicate n [w]) obs),
       adam_init = (\<lambda>lr w. 0),
       adam_init_scalar = (\<lambda>lr x. 0),
       adam_step = (\<lambda>opt w loss. (Suc opt, w - loss w)),
       adam_step_scalar = (\<lambda>opt x grad. (Suc opt, x - grad)),
       adam_step_stale = (\<lambda>opt. opt),
       soft_target_update = (\<lambda>q t tau. tau * q + (1 - tau) * t) \<rparr>"

definition toy_hparams :: hparams where
  "toy_hparams =
     \<lparr> policy_lr = 0.0001, qf_lr = 0.0003, cvae_lr = 0.0003, gamma = 0.99, tau = 0.05,
       alpha_init = 0.5, auto_alpha_tuning = False, action_dim = 1,
       lmbda = 0.75, mmd_sigma = 20, kernel_type = ''gaussian'', lagrange_thresh = 0.05,
       n_action_samples = 3, n_target_samples = 10, n_mmd_action_samples = 2,
       warmup_step = 1 \<rparr>"

definition toy_agent :: "(real, nat) agent" where
  "toy_agent = BEAR_Agent_init toy_substrate toy_hparams 1 2 3 4 0"

definition toy_other :: "(real, nat) agent" where
  \<comment> \<open>A second agent, constructed from other networks.\<close>
  "toy_other = BEAR_Agent_init toy_substrate toy_hparams 11 12 13 14 0"

definition toy_tuned :: "(real, nat) agent" where
  \<comment> \<open>An agent that tunes the temperature.\<close>
  "toy_tuned =
     BEAR_Agent_init toy_substrate (toy_hparams\<lparr>auto_alpha_tuning := True\<rparr>) 1 2 3 4 0"

definition toy_other_tuned :: "(real, nat) agent" where
  "toy_other_tuned =
     BEAR_Agent_init toy_substrate (toy_hparams\<lparr>auto_alpha_tuning := True\<rparr>) 11 12 13 14 0"

definition toy_checkpoint :: "(real, nat) checkpoint" where
  "toy_checkpoint =
     \<lparr> ck_q_net1 = 20, ck_q_net2 = 30, ck_policy_net = 10,
       ck_q_optimizer1 = 5, ck_q_optimizer2 = 5, ck_policy_optimizer = 5,
       ck_train_step = 5000, ck_log_alpha = None, ck_alpha_optimizer = None,
       ck_log_alpha_prime = 1, ck_alpha_prime_optimizer = 5 \<rparr>"

definition toy_loaded :: "(real, nat) agent" where
  \<comment> \<open>\<open>toy_agent\<close> after it has loaded \<open>toy_checkpoint\<close>.\<close>
  "toy_loaded =
     toy_agent\<lparr>q_net1 := 20, q_net2 := 30, policy_net := 10,
       q_optimizer1 := 5, q_optimizer2 := 5, policy_optimizer := 5, train_step := 5000,
       log_alpha_prime := 1, log_alpha_prime_grad := 0, log_alpha_prime_owned := False,
       alpha_prime_optimizer := 5\<rparr>"

definition toy_five :: "(real, nat) agent" where
  \<comment> \<open>\<open>toy_agent\<close> constructed with \<^verbatim>\<open>n_target_samples=5\<close>.\<close>
  "toy_five = BEAR_Agent_init toy_substrate (toy_hparams\<lparr>n_target_samples := 5\<rparr>) 1 2 3 4 0"

definition toy_late :: "(real, nat) agent" where
  \<comment> \<open>\<open>toy_agent\<close> after its warm-up.\<close>
  "toy_late = toy_agent\<lparr>train_step := 2\<rparr>"

definition toy_boundary :: "(real, nat) agent" where
  \<comment> \<open>\<open>toy_agent\<close> at the step whose counter equals \<^verbatim>\<open>warmup_step\<close>.\<close>
  "toy_boundary = toy_agent\<lparr>train_step := 1\<rparr>"

section \<open>Kernels and quadratic forms\<close>

text \<open>
  Notions for the analysis of the estimator: the square of the distance it returns is,
  up to the constant under the root, a quadratic form of the kernel.
\<close>

definition quad_form :: "('a \<Rightarrow> 'a \<Rightarrow> real) \<Rightarrow> (real \<times> 'a) list \<Rightarrow> real" where
  \<comment> \<open>The quadratic form of a kernel on a list of weighted points.\<close>
  "quad_form k ps = (\<Sum>p\<leftarrow>ps. \<Sum>q\<leftarrow>ps. fst p * fst q * k (snd p) (snd q))"

definition feature_sum :: "('a \<Rightarrow> real) list \<Rightarrow> 'a \<Rightarrow> 'a \<Rightarrow> real" where
  \<comment> \<open>The kernel of a finite list of features.\<close>
  "feature_sum fs x y = (\<Sum>f\<leftarrow>fs. f x * f y)"

definition representable :: "'a set \<Rightarrow> ('a \<Rightarrow> 'a \<Rightarrow> real) \<Rightarrow> bool" where
  \<comment> \<open>On \<open>S\<close> the kernel is the kernel of finitely many features.\<close>
  "representable S k \<longleftrightarrow> (\<exists>fs. \<forall>x\<in>S. \<forall>y\<in>S. k x y = feature_sum fs x y)"

definition positive_semidefinite :: "'a set \<Rightarrow> ('a \<Rightarrow> 'a \<Rightarrow> real) \<Rightarrow> bool" where
  \<comment> \<open>Every quadratic form of the kernel on points of \<open>S\<close> is non-negative.\<close>
  "positive_semidefinite S k \<longleftrightarrow> (\<forall>ps. snd ` set ps \<subseteq> S \<longrightarrow> 0 \<le> quad_form k ps)"

definition kernel_mean :: "('a \<Rightarrow> 'a \<Rightarrow> real) \<Rightarrow> 'a list \<Rightarrow> 'a list \<Rightarrow> real" where
  \<comment> \<open>The mean of the kernel over all pairs of a point of \<open>xs\<close> and a point of \<open>ys\<close>.\<close>
  "kernel_mean k xs ys = tensor_mean (concat (map (\<lambda>x. map (k x) ys) xs))"

definition gaussian_term :: "real \<Rightarrow> real list \<Rightarrow> real list \<Rightarrow> real" where
  \<comment> \<open>One pairwise term of \<open>gaussian_kernel\<close>.\<close>
  "gaussian_term sigma x y = exp (- sum_list (map (\<lambda>v. v ^ 2) (map2 (-) x y)) / (2 * sigma))"

definition laplacian_term :: "real \<Rightarrow> real list \<Rightarrow> real list \<Rightarrow> real" where
  \<comment> \<open>One pairwise term of \<open>laplacian_kernel\<close>.\<close>
  "laplacian_term sigma x y = exp (- sum_list (map abs (map2 (-) x y)) / (2 * sigma))"

section \<open>Properties of the kernel terms\<close>

lemma sum_list_map2_nth:
  "length x = length y \<Longrightarrow>
   sum_list (map2 (\<lambda>u v. f (u - v)) x y) = (\<Sum>k<length x. f (x ! k - (y ! k :: real)))"
proof (induction x y rule: list_induct2)
  case Nil
  then show ?case by simp
next
  case (Cons a x b y)
  have "(\<Sum>k<Suc (length x). f ((a # x) ! k - (b # y) ! k)) =
        f (a - b) + (\<Sum>k<length x. f (x ! k - y ! k))"
    by (simp only: sum.lessThan_Suc_shift) simp
  with Cons show ?case by simp
qed

lemma sum_squares_diff:
  "length x = length y \<Longrightarrow>
   sum_list (map (\<lambda>v. v ^ 2) (map2 (-) x y)) = sq_euclidean x y"
  using sum_list_map2_nth [of x y "\<lambda>v. v ^ 2"]
  by (simp add: o_def case_prod_unfold sq_euclidean_def)

lemma sum_abs_diff:
  "length x = length y \<Longrightarrow> sum_list (map abs (map2 (-) x y)) = l1_distance x y"
  using sum_list_map2_nth [of x y abs]
  by (simp add: o_def case_prod_unfold l1_distance_def)

lemma pairwise_diff_nth:
  "i < length a \<Longrightarrow> j < length b \<Longrightarrow> pairwise_diff a b ! i ! j = map2 (-) (a ! i) (b ! j)"
  by (simp add: pairwise_diff_def)

lemma gaussian_kernel_nth:
  assumes "n < length a" "n < length b" "i < length (a ! n)" "j < length (b ! n)"
  shows "gaussian_kernel a b sigma ! n ! i ! j =
         exp (- sum_list (map (\<lambda>v. v ^ 2) (map2 (-) (a ! n ! i) (b ! n ! j))) / (2 * sigma))"
  using assms by (simp add: gaussian_kernel_def pairwise_diff_def)

lemma laplacian_kernel_nth:
  assumes "n < length a" "n < length b" "i < length (a ! n)" "j < length (b ! n)"
  shows "laplacian_kernel a b sigma ! n ! i ! j =
         exp (- sum_list (map abs (map2 (-) (a ! n ! i) (b ! n ! j))) / (2 * sigma))"
  using assms by (simp add: laplacian_kernel_def pairwise_diff_def)

text \<open>
  C1 (as the code has it). Every pairwise term of the Gaussian estimator is the
  exponential of the squared Euclidean distance scaled by \<open>-1/(2\<sigma>)\<close> (the bandwidth
  enters unsquared), and every pairwise term of the Laplacian estimator is the
  exponential of the L1 distance scaled by \<open>-1/(2\<sigma>)\<close>.
\<close>

theorem C1_kernel_terms:
  assumes "n < length a" "n < length b" "i < length (a ! n)" "j < length (b ! n)"
    and "length (a ! n ! i) = length (b ! n ! j)"
  shows "gaussian_kernel a b sigma ! n ! i ! j =
           exp (- 1 / (2 * sigma) * sq_euclidean (a ! n ! i) (b ! n ! j))
       \<and> laplacian_kernel a b sigma ! n ! i ! j =
           exp (- 1 / (2 * sigma) * l1_distance (a ! n ! i) (b ! n ! j))"
proof -
  have g: "sum_list (map (\<lambda>v. v ^ 2) (map2 (-) (a ! n ! i) (b ! n ! j))) =
           sq_euclidean (a ! n ! i) (b ! n ! j)"
    using assms(5) by (rule sum_squares_diff)
  have l: "sum_list (map abs (map2 (-) (a ! n ! i) (b ! n ! j))) =
           l1_distance (a ! n ! i) (b ! n ! j)"
    using assms(5) by (rule sum_abs_diff)
  show ?thesis
    unfolding gaussian_kernel_nth [OF assms(1-4)] laplacian_kernel_nth [OF assms(1-4)] g l
    by simp
qed

theorem C1_kernel_terms_witness:
  "gaussian_kernel [[[1, 2], [0, 0]]] [[[0, 0], [3, 1]]] 2 ! 0 ! 0 ! 1 = exp (- 1 / (2 * 2) * 5)
 \<and> laplacian_kernel [[[1, 2], [0, 0]]] [[[0, 0], [3, 1]]] 2 ! 0 ! 0 ! 1 = exp (- 1 / (2 * 2) * 3)"
  using C1_kernel_terms [of 0 "[[[1, 2], [0, 0]]]" "[[[0, 0], [3, 1]]]" 0 1 2]
  by (simp add: sq_euclidean_def l1_distance_def lessThan_Suc numeral_2_eq_2)

text \<open>
  The claim as it is written (scaling by \<open>-1/(2\<sigma>\<^sup>2)\<close>) fails for the Gaussian
  estimator: for the points \<open>1\<close> and \<open>0\<close> and \<open>\<sigma> = 2\<close> the code's term is
  \<open>exp (-1/4)\<close>, the specification's \<open>exp (-1/8)\<close>.
\<close>

theorem C1_gaussian_counterexample:
  "gaussian_kernel [[[1]]] [[[0]]] 2 ! 0 ! 0 ! 0 \<noteq> spec_gaussian_term 2 [1] [0]"
  by (simp add: gaussian_kernel_def pairwise_diff_def spec_gaussian_term_def sq_euclidean_def)

section \<open>Checkpoints: what is restored and what is not\<close>

lemma load_agent_checkpoint_cases:
  assumes "load_agent_checkpoint ck s = Inr s'"
  obtains (fixed) "\<not> auto_alpha_tuning (hp s)"
      "s' = s\<lparr>q_net1 := ck_q_net1 ck, q_net2 := ck_q_net2 ck, policy_net := ck_policy_net ck,
              q_optimizer1 := ck_q_optimizer1 ck, q_optimizer2 := ck_q_optimizer2 ck,
              policy_optimizer := ck_policy_optimizer ck, train_step := ck_train_step ck,
              log_alpha_prime := ck_log_alpha_prime ck, log_alpha_prime_grad := 0,
              log_alpha_prime_owned := False,
              alpha_prime_optimizer := ck_alpha_prime_optimizer ck\<rparr>"
  | (tuned) l opt where "auto_alpha_tuning (hp s)" "ck_log_alpha ck = Some l"
      "ck_alpha_optimizer ck = Some opt"
      "s' = s\<lparr>q_net1 := ck_q_net1 ck, q_net2 := ck_q_net2 ck, policy_net := ck_policy_net ck,
              q_optimizer1 := ck_q_optimizer1 ck, q_optimizer2 := ck_q_optimizer2 ck,
              policy_optimizer := ck_policy_optimizer ck, train_step := ck_train_step ck,
              log_alpha := Some l, log_alpha_owned := False, alpha_optimizer := Some opt,
              log_alpha_prime := ck_log_alpha_prime ck, log_alpha_prime_grad := 0,
              log_alpha_prime_owned := False,
              alpha_prime_optimizer := ck_alpha_prime_optimizer ck\<rparr>"
  using assms
  by (auto simp: load_agent_checkpoint_def Let_def split: if_splits option.splits)

text \<open>
  C9. Loading a checkpoint leaves the two target critics, the behaviour model and the
  behaviour model's optimizer as they were in the loading agent: the record has no entry
  for them. The critics themselves are overwritten by the record, so after a resume the
  target critics are the loading agent's, not the loaded critics.
\<close>

theorem C9_load_frame:
  assumes "load_agent_checkpoint ck s = Inr s'"
  shows "target_q_net1 s' = target_q_net1 s \<and> target_q_net2 s' = target_q_net2 s
       \<and> cvae_net s' = cvae_net s \<and> cvae_optimizer s' = cvae_optimizer s
       \<and> q_net1 s' = ck_q_net1 ck \<and> q_net2 s' = ck_q_net2 ck"
  using assms by (cases rule: load_agent_checkpoint_cases) simp_all

text \<open>
  An agent fresh from the constructor loads a checkpoint of other critics: its target
  critics stay the constructor's copies.
\<close>

lemma toy_load: "load_agent_checkpoint toy_checkpoint toy_agent = Inr toy_loaded"
  by (simp add: load_agent_checkpoint_def toy_checkpoint_def toy_agent_def toy_hparams_def
      toy_loaded_def BEAR_Agent_init_def)

theorem C9_load_frame_witness:
  "load_agent_checkpoint toy_checkpoint toy_agent = Inr toy_loaded
   \<and> (target_q_net1 toy_loaded = target_q_net1 toy_agent
      \<and> target_q_net2 toy_loaded = target_q_net2 toy_agent
      \<and> cvae_net toy_loaded = cvae_net toy_agent
      \<and> cvae_optimizer toy_loaded = cvae_optimizer toy_agent
      \<and> q_net1 toy_loaded = ck_q_net1 toy_checkpoint
      \<and> q_net2 toy_loaded = ck_q_net2 toy_checkpoint)"
  by (rule conjI [OF toy_load C9_load_frame [OF toy_load]])

text \<open>
  C8 (as the code has it). When an agent \<open>s\<close> stores a checkpoint and an agent \<open>t\<close> with the
  same temperature-tuning flag loads it, the load succeeds and \<open>t\<close> holds the critics,
  the policy, their three optimizer states, the step counter, the support multiplier
  and its optimizer state of \<open>s\<close> (and the temperature and its optimizer state when the
  flag is set), exactly as they were stored. The target critics, the behaviour model
  and its optimizer are not in the record: \<open>t\<close> keeps its own.
\<close>

theorem C8_checkpoint_roundtrip:
  assumes "auto_alpha_tuning (hp t) = auto_alpha_tuning (hp s)"
    and "auto_alpha_tuning (hp s) \<Longrightarrow>
           log_alpha s \<noteq> None \<and> alpha_optimizer s \<noteq> None \<and> alpha_optimizer t \<noteq> None"
  shows "\<exists>t'. save_then_load s t = Inr t'
          \<and> q_net1 t' = q_net1 s \<and> q_net2 t' = q_net2 s \<and> policy_net t' = policy_net s
          \<and> q_optimizer1 t' = q_optimizer1 s \<and> q_optimizer2 t' = q_optimizer2 s
          \<and> policy_optimizer t' = policy_optimizer s
          \<and> train_step t' = train_step s
          \<and> log_alpha_prime t' = log_alpha_prime s
          \<and> alpha_prime_optimizer t' = alpha_prime_optimizer s
          \<and> (auto_alpha_tuning (hp s) \<longrightarrow>
                log_alpha t' = log_alpha s \<and> alpha_optimizer t' = alpha_optimizer s)
          \<and> target_q_net1 t' = target_q_net1 t \<and> target_q_net2 t' = target_q_net2 t
          \<and> cvae_net t' = cvae_net t \<and> cvae_optimizer t' = cvae_optimizer t"
proof (cases "auto_alpha_tuning (hp s)")
  case False
  with assms(1) show ?thesis
    by (simp add: save_then_load_def store_agent_checkpoint_def load_agent_checkpoint_def)
next
  case True
  with assms(2) obtain l opt opt' where
    "log_alpha s = Some l" "alpha_optimizer s = Some opt" "alpha_optimizer t = Some opt'"
    by auto
  with True assms(1) show ?thesis
    by (simp add: save_then_load_def store_agent_checkpoint_def load_agent_checkpoint_def)
qed

theorem C8_checkpoint_roundtrip_witness:
  "\<exists>t'. save_then_load toy_tuned toy_other_tuned = Inr t'
      \<and> q_net1 t' = 2 \<and> q_net2 t' = 3 \<and> policy_net t' = 1 \<and> train_step t' = 0
      \<and> log_alpha_prime t' = 0 \<and> log_alpha t' = Some 0 \<and> alpha_optimizer t' = Some 0
      \<and> cvae_net t' = 14"
proof -
  have a: "auto_alpha_tuning (hp toy_other_tuned) = auto_alpha_tuning (hp toy_tuned)"
    by (simp add: toy_tuned_def toy_other_tuned_def BEAR_Agent_init_def)
  have b: "log_alpha toy_tuned \<noteq> None \<and> alpha_optimizer toy_tuned \<noteq> None
         \<and> alpha_optimizer toy_other_tuned \<noteq> None"
    by (simp add: toy_tuned_def toy_other_tuned_def BEAR_Agent_init_def)
  from C8_checkpoint_roundtrip [OF a b] obtain t' where
    "save_then_load toy_tuned toy_other_tuned = Inr t'"
    "q_net1 t' = q_net1 toy_tuned" "q_net2 t' = q_net2 toy_tuned"
    "policy_net t' = policy_net toy_tuned" "train_step t' = train_step toy_tuned"
    "log_alpha_prime t' = log_alpha_prime toy_tuned"
    "auto_alpha_tuning (hp toy_tuned) \<longrightarrow>
       log_alpha t' = log_alpha toy_tuned \<and> alpha_optimizer t' = alpha_optimizer toy_tuned"
    "cvae_net t' = cvae_net toy_other_tuned"
    by blast
  then show ?thesis
    by (simp add: toy_tuned_def toy_other_tuned_def toy_substrate_def BEAR_Agent_init_def)
qed

text \<open>
  The claim as it is written (every parameter tensor of the agent's full state is
  restored) fails: a second agent that loads the checkpoint of \<open>toy_agent\<close> keeps its own
  behaviour model and its own target critics.
\<close>

theorem C8_full_state_counterexample:
  "\<not> isl (save_then_load toy_agent toy_other)
   \<and> cvae_net (projr (save_then_load toy_agent toy_other)) \<noteq> cvae_net toy_agent
   \<and> target_q_net1 (projr (save_then_load toy_agent toy_other)) \<noteq> target_q_net1 toy_agent"
  by (simp add: save_then_load_def store_agent_checkpoint_def load_agent_checkpoint_def
      toy_agent_def toy_other_def toy_hparams_def BEAR_Agent_init_def)

section \<open>Action selection\<close>

lemma argmax_from_greatest:
  assumes "best < i" "i \<le> length ys" "ys ! best = v" "\<forall>j<i. ys ! j \<le> v" "xs = drop i ys"
  shows "argmax_from best v i xs < length ys
         \<and> (\<forall>j<length ys. ys ! j \<le> ys ! argmax_from best v i xs)"
  using assms
proof (induction xs arbitrary: best v i)
  case Nil
  then have "i = length ys" by simp
  with Nil show ?case by simp
next
  case (Cons x xs)
  from Cons.prems(5) have i: "i < length ys"
    by (metis drop_eq_Nil list.distinct(1) not_le)
  from Cons.prems(5) i have x: "x = ys ! i"
    by (metis Cons_nth_drop_Suc list.inject)
  from Cons.prems(5) i have xs: "xs = drop (Suc i) ys"
    by (metis Cons_nth_drop_Suc list.inject)
  show ?case
  proof (cases "v < x")
    case True
    have "\<forall>j<Suc i. ys ! j \<le> x"
      using Cons.prems(4) True x by (auto simp: less_Suc_eq)
    with Cons.IH [of i "Suc i" x] i x xs True show ?thesis by simp
  next
    case False
    have "\<forall>j<Suc i. ys ! j \<le> v"
      using Cons.prems(4) False x by (auto simp: less_Suc_eq)
    with Cons.IH [of best "Suc i" v] Cons.prems(1,3) i xs False show ?thesis by simp
  qed
qed

lemma argmax_greatest:
  assumes "xs \<noteq> []"
  shows "\<exists>i<length xs. argmax xs = Inr i \<and> (\<forall>j<length xs. xs ! j \<le> xs ! i)"
proof -
  from assms obtain x ys where xs: "xs = x # ys" by (cases xs) auto
  have "argmax_from 0 x 1 ys < length xs
        \<and> (\<forall>j<length xs. xs ! j \<le> xs ! argmax_from 0 x 1 ys)"
    by (rule argmax_from_greatest) (simp_all add: xs)
  then show ?thesis by (simp add: argmax_def xs)
qed

lemma policy_forward_replicate:
  "fst (policy_forward N w k (replicate n obs)) = map (\<lambda>i. fst (policy_row N w k i obs)) [0..<n]"
  by (simp add: policy_forward_def Let_def list_eq_iff_nth_eq)

lemma q_forward_replicate:
  "q_forward N w (replicate n obs) (map f [0..<n]) = map (\<lambda>i. q_row N w obs (f i)) [0..<n]"
  by (simp add: q_forward_def list_eq_iff_nth_eq)

lemma choose_action_unfold:
  "choose_action N s obs eval =
     (case argmax (map (\<lambda>i. q_row N (q_net1 s) obs (fst (policy_row N (policy_net s) (rng s) i obs)))
                     [0..<n_action_samples (hp s)]) of
        Inl e \<Rightarrow> Inl e
      | Inr ind \<Rightarrow> Inr (map (\<lambda>i. fst (policy_row N (policy_net s) (rng s) i obs))
                          [0..<n_action_samples (hp s)] ! ind))"
proof -
  have "choose_action N s obs eval =
     (let obs' = replicate (n_action_samples (hp s)) obs;
          action = fst (policy_forward N (policy_net s) (rng s) obs');
          q1 = q_forward N (q_net1 s) obs' action
      in case argmax q1 of Inl e \<Rightarrow> Inl e | Inr ind \<Rightarrow> Inr (action ! ind))"
    by (simp add: choose_action_def Let_def case_prod_unfold)
  then show ?thesis
    by (simp add: Let_def policy_forward_replicate q_forward_replicate cong: sum.case_cong)
qed

text \<open>
  C10. \<^verbatim>\<open>choose_action\<close> never reads its \<^verbatim>\<open>eval\<close> flag: the result is the same for both
  values. With at least one action sample it repeats the observation
  \<open>n_action_samples\<close> times, draws one candidate per copy from the policy, evaluates the
  first critic on each candidate and returns a candidate whose estimate is greatest.
\<close>

theorem C10_eval_flag_ignored:
  "choose_action N s obs eval = choose_action N s obs eval'
   \<and> (0 < n_action_samples (hp s) \<longrightarrow>
        (\<exists>i<n_action_samples (hp s).
           choose_action N s obs eval = Inr (fst (policy_row N (policy_net s) (rng s) i obs))
           \<and> (\<forall>j<n_action_samples (hp s).
                 q_row N (q_net1 s) obs (fst (policy_row N (policy_net s) (rng s) j obs))
                 \<le> q_row N (q_net1 s) obs (fst (policy_row N (policy_net s) (rng s) i obs)))))"
proof (intro conjI impI)
  show "choose_action N s obs eval = choose_action N s obs eval'"
    by (simp add: choose_action_unfold)
next
  let ?n = "n_action_samples (hp s)"
  let ?a = "\<lambda>i. fst (policy_row N (policy_net s) (rng s) i obs)"
  let ?q = "map (\<lambda>i. q_row N (q_net1 s) obs (?a i)) [0..<?n]"
  assume "0 < ?n"
  then have "?q \<noteq> []" by simp
  from argmax_greatest [OF this] obtain i where
    i: "i < ?n" "argmax ?q = Inr i" "\<forall>j<?n. ?q ! j \<le> ?q ! i"
    by auto
  from i(1,2) have "choose_action N s obs eval = Inr (?a i)"
    by (simp add: choose_action_unfold)
  moreover from i(1,3) have "\<forall>j<?n. q_row N (q_net1 s) obs (?a j) \<le> q_row N (q_net1 s) obs (?a i)"
    by simp
  ultimately show "\<exists>i<?n. choose_action N s obs eval = Inr (?a i)
      \<and> (\<forall>j<?n. q_row N (q_net1 s) obs (?a j) \<le> q_row N (q_net1 s) obs (?a i))"
    using i(1) by blast
qed

theorem C10_eval_flag_ignored_witness:
  "choose_action toy_substrate toy_agent [1] True = choose_action toy_substrate toy_agent [1] False
   \<and> choose_action toy_substrate toy_agent [1] True = Inr [1]"
proof -
  have "choose_action toy_substrate toy_agent [1] True = Inr [1]"
    by (simp add: toy_agent_def toy_substrate_def toy_hparams_def BEAR_Agent_init_def
        choose_action_def policy_forward_def q_forward_def argmax_def upt_conv_Cons
        eval_nat_numeral)
  with C10_eval_flag_ignored [of toy_substrate toy_agent "[1]" True False]
  show ?thesis by simp
qed

section \<open>The reshape of the critic target\<close>

lemma length_repeat_interleave: "length (repeat_interleave n xs) = n * length xs"
  by (induction xs) (simp_all add: repeat_interleave_def)

lemma length_policy_forward: "length (fst (policy_forward N w k obs)) = length obs"
  by (simp add: policy_forward_def Let_def)

lemma length_q_forward: "length (q_forward N w obs acts) = min (length obs) (length acts)"
  by (simp add: q_forward_def)

lemma critic_target_ok_iff:
  "(\<exists>t. critic_target N s b k = Inr t) \<longleftrightarrow>
   n_target_samples (hp s) * length (b_next_obs b) = length (b_obs b) * 10"
  by (auto simp: critic_target_def Let_def reshape_groups_def length_repeat_interleave
      length_policy_forward length_q_forward split: if_splits)

text \<open>
  C7. The target computation repeats every next observation \<open>n_target_samples\<close> times but
  regroups the estimates in groups of the constant 10: the reshape succeeds for every
  batch (whose arrays share the batch dimension) exactly when \<open>n_target_samples = 10\<close>.
\<close>

theorem C7_reshape_needs_ten:
  "(\<forall>b. length (b_next_obs b) = length (b_obs b) \<longrightarrow> (\<exists>t. critic_target N s b k = Inr t))
   \<longleftrightarrow> n_target_samples (hp s) = 10"
proof
  assume a: "\<forall>b. length (b_next_obs b) = length (b_obs b) \<longrightarrow> (\<exists>t. critic_target N s b k = Inr t)"
  have "\<exists>t. critic_target N s toy_batch k = Inr t"
    using a by (simp add: toy_batch_def)
  then show "n_target_samples (hp s) = 10"
    by (simp add: critic_target_ok_iff toy_batch_def)
next
  assume "n_target_samples (hp s) = 10"
  then show "\<forall>b. length (b_next_obs b) = length (b_obs b) \<longrightarrow> (\<exists>t. critic_target N s b k = Inr t)"
    by (simp add: critic_target_ok_iff)
qed

theorem C7_reshape_needs_ten_witness:
  "n_target_samples (hp toy_agent) = 10
   \<and> (\<exists>t. critic_target toy_substrate toy_agent toy_batch 0 = Inr t)
   \<and> critic_target toy_substrate (toy_agent\<lparr>hp := toy_hparams\<lparr>n_target_samples := 5\<rparr>\<rparr>) toy_batch 0
       = Inl ReshapeInvalid"
proof -
  have n: "n_target_samples (hp toy_agent) = 10"
    by (simp add: toy_agent_def toy_hparams_def BEAR_Agent_init_def)
  have l: "length (b_next_obs toy_batch) = length (b_obs toy_batch)"
    by (simp add: toy_batch_def)
  from C7_reshape_needs_ten [of toy_substrate toy_agent 0] n l
  have "\<exists>t. critic_target toy_substrate toy_agent toy_batch 0 = Inr t" by blast
  moreover have "critic_target toy_substrate (toy_agent\<lparr>hp := toy_hparams\<lparr>n_target_samples := 5\<rparr>\<rparr>)
      toy_batch 0 = Inl ReshapeInvalid"
    by (simp add: critic_target_def Let_def reshape_groups_def length_repeat_interleave
        length_policy_forward length_q_forward toy_batch_def toy_hparams_def)
  ultimately show ?thesis using n by blast
qed

section \<open>The support multiplier stays in its range\<close>

lemma clamp_range: "- 5 \<le> clamp (- 5) 10 x \<and> clamp (- 5) 10 x \<le> 10"
  by (simp add: clamp_def)

lemma update_cvae_frame:
  "hp (update_cvae N s b k) = hp s"
  "log_alpha (update_cvae N s b k) = log_alpha s"
  "alpha_optimizer (update_cvae N s b k) = alpha_optimizer s"
  by (simp_all add: update_cvae_def Let_def case_prod_unfold)

lemma update_critics_frame:
  "hp (fst (update_critics N s b t)) = hp s"
  "log_alpha (fst (update_critics N s b t)) = log_alpha s"
  "alpha_optimizer (fst (update_critics N s b t)) = alpha_optimizer s"
  by (simp_all add: update_critics_def Let_def case_prod_unfold)

lemma update_alpha_prime_frame:
  "hp (fst (update_alpha_prime N s mmd)) = hp s"
  "log_alpha (fst (update_alpha_prime N s mmd)) = log_alpha s"
  "alpha_optimizer (fst (update_alpha_prime N s mmd)) = alpha_optimizer s"
  by (simp_all add: update_alpha_prime_def Let_def case_prod_unfold)

lemma update_alpha_prime_clamped:
  "\<exists>x. log_alpha_prime (fst (update_alpha_prime N s mmd)) = clamp (- 5) 10 x"
  by (auto simp: update_alpha_prime_def Let_def case_prod_unfold)

lemma update_actor_frame:
  "hp (update_actor N s obs km kp) = hp s"
  "log_alpha (update_actor N s obs km kp) = log_alpha s"
  "alpha_optimizer (update_actor N s obs km kp) = alpha_optimizer s"
  "log_alpha_prime (update_actor N s obs km kp) = log_alpha_prime s"
  "alpha_prime_optimizer (update_actor N s obs km kp) = alpha_prime_optimizer s"
  by (simp_all add: update_actor_def Let_def case_prod_unfold)

lemma update_alpha_frame:
  assumes "update_alpha N s log_prob = Inr (s', l)"
  shows "hp s' = hp s" "log_alpha_prime s' = log_alpha_prime s"
    "alpha_prime_optimizer s' = alpha_prime_optimizer s"
    "log_alpha_prime_grad s' = log_alpha_prime_grad s"
    "auto_alpha_tuning (hp s) \<Longrightarrow> log_alpha s' \<noteq> None \<and> alpha_optimizer s' \<noteq> None"
  using assms
  by (auto simp: update_alpha_def Let_def case_prod_unfold split: if_splits option.splits)

lemma update_alpha_succeeds:
  assumes "auto_alpha_tuning (hp s) \<Longrightarrow> log_alpha s \<noteq> None \<and> alpha_optimizer s \<noteq> None"
  shows "\<exists>r. update_alpha N s log_prob = Inr r"
  using assms
  by (auto simp: update_alpha_def Let_def case_prod_unfold split: if_splits option.splits)

lemma train_Inr:
  assumes "train N s = Inr (s', losses)"
  shows "\<exists>x. log_alpha_prime s' = clamp (- 5) 10 x" and "hp s' = hp s"
    and "auto_alpha_tuning (hp s) \<Longrightarrow> log_alpha s' \<noteq> None \<and> alpha_optimizer s' \<noteq> None"
proof -
  define b where "b = sample N (rng s)"
  define s1 where "s1 = update_cvae N s b (rng s + 1)"
  from assms obtain target_q where t: "critic_target N s1 b (rng s + 2) = Inr target_q"
    by (auto simp: train_def Let_def b_def s1_def split: sum.splits)
  define s2 where "s2 = fst (update_critics N s1 b target_q)"
  define mmd where "mmd = mmd_loss N s2 (b_obs b) (rng s + 4) (policy_net s2)"
  define s3 where "s3 = fst (update_alpha_prime N s2 mmd)"
  define s4 where "s4 = update_actor N s3 (b_obs b) (rng s + 4) (rng s + 6)"
  define lp where "lp = fst (snd (policy_forward N (policy_net s3) (rng s + 6) (b_obs b)))"
  from assms t obtain s5 al where u: "update_alpha N s4 lp = Inr (s5, al)"
    and s': "s' = s5\<lparr>target_q_net1 := soft_target_update N (q_net1 s5) (target_q_net1 s5) (tau (hp s5)),
                     target_q_net2 := soft_target_update N (q_net2 s5) (target_q_net2 s5) (tau (hp s5)),
                     train_step := train_step s5 + 1, rng := rng s + 7\<rparr>"
    by (auto simp: train_def Let_def b_def s1_def s2_def mmd_def s3_def s4_def lp_def
        case_prod_unfold split: sum.splits)
  have hp4: "hp s4 = hp s"
    by (simp add: s4_def s3_def s2_def s1_def update_actor_frame update_alpha_prime_frame
        update_critics_frame update_cvae_frame)
  have "log_alpha_prime s' = log_alpha_prime s3"
    using update_alpha_frame(2) [OF u] by (simp add: s' s4_def update_actor_frame)
  then show "\<exists>x. log_alpha_prime s' = clamp (- 5) 10 x"
    using update_alpha_prime_clamped [of N s2 mmd] by (simp add: s3_def)
  show "hp s' = hp s"
    using update_alpha_frame(1) [OF u] hp4 by (simp add: s')
  show "log_alpha s' \<noteq> None \<and> alpha_optimizer s' \<noteq> None" if "auto_alpha_tuning (hp s)"
    using update_alpha_frame(5) [OF u] that hp4 by (simp add: s')
qed

lemma train_succeeds:
  assumes "n_target_samples (hp s) = 10"
    and "length (b_next_obs (sample N (rng s))) = length (b_obs (sample N (rng s)))"
    and "auto_alpha_tuning (hp s) \<Longrightarrow> log_alpha s \<noteq> None \<and> alpha_optimizer s \<noteq> None"
  shows "\<exists>r. train N s = Inr r"
proof -
  define b where "b = sample N (rng s)"
  define s1 where "s1 = update_cvae N s b (rng s + 1)"
  have "\<exists>t. critic_target N s1 b (rng s + 2) = Inr t"
    using assms(1,2)
    by (simp add: critic_target_ok_iff s1_def b_def update_cvae_frame)
  then obtain target_q where t: "critic_target N s1 b (rng s + 2) = Inr target_q" ..
  define s2 where "s2 = fst (update_critics N s1 b target_q)"
  define mmd where "mmd = mmd_loss N s2 (b_obs b) (rng s + 4) (policy_net s2)"
  define s3 where "s3 = fst (update_alpha_prime N s2 mmd)"
  define s4 where "s4 = update_actor N s3 (b_obs b) (rng s + 4) (rng s + 6)"
  define lp where "lp = fst (snd (policy_forward N (policy_net s3) (rng s + 6) (b_obs b)))"
  have "auto_alpha_tuning (hp s4) \<Longrightarrow> log_alpha s4 \<noteq> None \<and> alpha_optimizer s4 \<noteq> None"
    using assms(3)
    by (simp add: s4_def s3_def s2_def s1_def update_actor_frame update_alpha_prime_frame
        update_critics_frame update_cvae_frame)
  from update_alpha_succeeds [OF this] obtain r where "update_alpha N s4 lp = Inr r" by blast
  with t show ?thesis
    by (cases r) (simp add: train_def Let_def b_def s1_def s2_def mmd_def s3_def s4_def lp_def
        case_prod_unfold)
qed

lemma train_steps_succeed:
  assumes "n_target_samples (hp s) = 10"
    and "\<And>k. length (b_next_obs (sample N k)) = length (b_obs (sample N k))"
    and "auto_alpha_tuning (hp s) \<Longrightarrow> log_alpha s \<noteq> None \<and> alpha_optimizer s \<noteq> None"
  shows "\<exists>s'. train_steps N n s = Inr s'"
  using assms(1,3)
proof (induction n arbitrary: s)
  case 0
  show ?case by simp
next
  case (Suc n)
  from train_succeeds [OF Suc.prems(1) assms(2) Suc.prems(2)]
  obtain s1 losses where t: "train N s = Inr (s1, losses)" by force
  from train_Inr(2,3) [OF t] Suc.prems
  have "n_target_samples (hp s1) = 10"
    and "auto_alpha_tuning (hp s1) \<Longrightarrow> log_alpha s1 \<noteq> None \<and> alpha_optimizer s1 \<noteq> None"
    by simp_all
  from Suc.IH [OF this] t show ?case by simp
qed

lemma train_steps_range:
  assumes "train_steps N n s = Inr s'"
    and "- 5 \<le> log_alpha_prime s \<and> log_alpha_prime s \<le> 10"
  shows "- 5 \<le> log_alpha_prime s' \<and> log_alpha_prime s' \<le> 10"
  using assms
proof (induction n arbitrary: s)
  case 0
  then show ?case by simp
next
  case (Suc n)
  from Suc.prems(1) obtain s1 losses where t: "train N s = Inr (s1, losses)"
    and r: "train_steps N n s1 = Inr s'"
    by (auto split: sum.splits)
  from train_Inr(1) [OF t] obtain x where "log_alpha_prime s1 = clamp (- 5) 10 x" ..
  then have "- 5 \<le> log_alpha_prime s1 \<and> log_alpha_prime s1 \<le> 10"
    using clamp_range [of x] by simp
  from Suc.IH [OF r this] show ?case .
qed

lemma BEAR_Agent_init_log_alpha_prime:
  "log_alpha_prime (BEAR_Agent_init N h policy q1 q2 cvae seed) = 0"
  by (simp add: BEAR_Agent_init_def)

text \<open>
  C5. After any number of training steps \<^verbatim>\<open>log_alpha_prime\<close> lies in \<open>[-5, 10]\<close> and
  \<open>alpha_prime = exp log_alpha_prime\<close> in \<open>[exp (-5), exp 10]\<close>: every training step ends the
  multiplier's update with the clamp, and nothing after it in the step writes the
  multiplier. Before the first step the value has to be in the range already, as the
  constructor's \<open>0\<close> is.
\<close>

theorem C5_log_alpha_prime_bounded:
  assumes "train_steps N n s = Inr s'"
    and "n = 0 \<Longrightarrow> - 5 \<le> log_alpha_prime s \<and> log_alpha_prime s \<le> 10"
  shows "- 5 \<le> log_alpha_prime s' \<and> log_alpha_prime s' \<le> 10
       \<and> exp (- 5) \<le> exp (log_alpha_prime s') \<and> exp (log_alpha_prime s') \<le> exp 10"
proof -
  have "- 5 \<le> log_alpha_prime s' \<and> log_alpha_prime s' \<le> 10"
  proof (cases n)
    case 0
    with assms show ?thesis by simp
  next
    case (Suc m)
    with assms(1) obtain s1 losses where t: "train N s = Inr (s1, losses)"
      and r: "train_steps N m s1 = Inr s'"
      by (auto split: sum.splits)
    from train_Inr(1) [OF t] obtain x where "log_alpha_prime s1 = clamp (- 5) 10 x" ..
    then have "- 5 \<le> log_alpha_prime s1 \<and> log_alpha_prime s1 \<le> 10"
      using clamp_range [of x] by simp
    from train_steps_range [OF r this] show ?thesis .
  qed
  then show ?thesis by simp
qed

theorem C5_log_alpha_prime_bounded_witness:
  "(\<exists>s'. train_steps toy_substrate 3 toy_agent = Inr s'
      \<and> - 5 \<le> log_alpha_prime s' \<and> log_alpha_prime s' \<le> 10
      \<and> exp (- 5) \<le> exp (log_alpha_prime s') \<and> exp (log_alpha_prime s') \<le> exp 10)
   \<and> train_steps toy_substrate 0 toy_agent = Inr toy_agent
   \<and> - 5 \<le> log_alpha_prime toy_agent \<and> log_alpha_prime toy_agent \<le> 10"
proof -
  have "\<exists>s'. train_steps toy_substrate 3 toy_agent = Inr s'"
    by (rule train_steps_succeed)
      (simp_all add: toy_agent_def toy_hparams_def toy_substrate_def toy_batch_def
        BEAR_Agent_init_def)
  then obtain s' where s': "train_steps toy_substrate 3 toy_agent = Inr s'" ..
  have "(3::nat) = 0 \<Longrightarrow> - 5 \<le> log_alpha_prime toy_agent \<and> log_alpha_prime toy_agent \<le> 10"
    by simp
  from C5_log_alpha_prime_bounded [OF s' this] s'
  have three: "\<exists>s'. train_steps toy_substrate 3 toy_agent = Inr s'
      \<and> - 5 \<le> log_alpha_prime s' \<and> log_alpha_prime s' \<le> 10
      \<and> exp (- 5) \<le> exp (log_alpha_prime s') \<and> exp (log_alpha_prime s') \<le> exp 10"
    by blast
  have z: "train_steps toy_substrate 0 toy_agent = Inr toy_agent" by simp
  have "- 5 \<le> log_alpha_prime toy_agent \<and> log_alpha_prime toy_agent \<le> 10"
    by (simp add: toy_agent_def BEAR_Agent_init_log_alpha_prime)
  from C5_log_alpha_prime_bounded [OF z this] three z show ?thesis by blast
qed

section \<open>The policy update\<close>

lemma mmd_loss_frame:
  "mmd_loss N (s\<lparr>q_net1 := qa, q_net2 := qb, alpha := al\<rparr>) obs km = mmd_loss N s obs km"
  by (simp add: mmd_loss_def Let_def fun_eq_iff)

lemma mmd_loss_train_step:
  "mmd_loss N (s\<lparr>train_step := n\<rparr>) obs km = mmd_loss N s obs km"
  by (simp add: mmd_loss_def Let_def fun_eq_iff)

lemma actor_loss_warmup:
  assumes "train_step s \<le> warmup_step (hp s)"
  shows "actor_loss N s obs km kp = (\<lambda>policy. bear_loss (log_alpha_prime s) (mmd_loss N s obs km policy))"
  using assms by (simp add: actor_loss_def fun_eq_iff)

lemma actor_loss_after:
  assumes "warmup_step (hp s) < train_step s"
  shows "actor_loss N s obs km kp =
     (\<lambda>policy. policy_loss N s obs kp policy
                + bear_loss (log_alpha_prime s) (mmd_loss N s obs km policy))"
  using assms by (simp add: actor_loss_def fun_eq_iff)

lemma update_actor_policy:
  "policy_net (update_actor N s obs km kp)
     = snd (adam_step N (policy_optimizer s) (policy_net s) (actor_loss N s obs km kp))"
  "policy_optimizer (update_actor N s obs km kp)
     = fst (adam_step N (policy_optimizer s) (policy_net s) (actor_loss N s obs km kp))"
  by (simp_all add: update_actor_def Let_def case_prod_unfold)

lemma bear_loss_scale: "bear_loss l mmd = exp l * tensor_mean mmd"
  by (simp add: bear_loss_def tensor_mean_def sum_list_const_mult)

lemma policy_forward_rows:
  "policy_forward N w k obs =
     (map (\<lambda>i. fst (policy_row N w k i (obs ! i))) [0..<length obs],
      map (\<lambda>i. fst (snd (policy_row N w k i (obs ! i)))) [0..<length obs],
      map (\<lambda>i. snd (snd (policy_row N w k i (obs ! i)))) [0..<length obs])"
  by (auto simp add: policy_forward_def Let_def intro!: nth_equalityI)

lemma q_forward_rows:
  "q_forward N q obs (map a [0..<length obs]) =
     map (\<lambda>i. q_row N q (obs ! i) (a i)) [0..<length obs]"
  by (auto simp add: q_forward_def intro!: nth_equalityI)

lemma policy_loss_rows:
  "policy_loss N s obs k policy =
     tensor_mean
       (map (\<lambda>i. let (a, log_prob, mu_action) = policy_row N policy k i (obs ! i)
                 in alpha s * log_prob
                    - min (q_row N (q_net1 s) (obs ! i) a) (q_row N (q_net2 s) (obs ! i) a))
          [0..<length obs])"
proof -
  have "map2 (\<lambda>lp q. alpha s * lp - q)
          (map (\<lambda>i. fst (snd (policy_row N policy k i (obs ! i)))) [0..<length obs])
          (map2 min
             (map (\<lambda>i. q_row N (q_net1 s) (obs ! i) (fst (policy_row N policy k i (obs ! i))))
                [0..<length obs])
             (map (\<lambda>i. q_row N (q_net2 s) (obs ! i) (fst (policy_row N policy k i (obs ! i))))
                [0..<length obs]))
        = map (\<lambda>i. let (a, log_prob, mu_action) = policy_row N policy k i (obs ! i)
                 in alpha s * log_prob
                    - min (q_row N (q_net1 s) (obs ! i) a) (q_row N (q_net2 s) (obs ! i) a))
          [0..<length obs]"
    by (auto simp add: case_prod_unfold Let_def intro!: nth_equalityI)
  then show ?thesis
    by (simp add: policy_loss_def policy_forward_rows q_forward_rows)
qed

text \<open>The policy update on the small instance.\<close>

lemma toy_adam_step: "adam_step toy_substrate opt w loss = (Suc opt, w - loss w)"
  by (simp add: toy_substrate_def)

lemma toy_agent_fields:
  "policy_net toy_agent = 1" "policy_optimizer toy_agent = 0" "log_alpha_prime toy_agent = 0"
  "q_net1 toy_agent = 2" "q_net2 toy_agent = 3" "alpha toy_agent = 1 / 2"
  "train_step toy_agent = 0" "warmup_step (hp toy_agent) = 1"
  by (simp_all add: toy_agent_def toy_hparams_def toy_substrate_def BEAR_Agent_init_def)

lemma toy_mmd:
  "mmd_loss toy_substrate toy_agent [[1]] 4 (policy_net toy_agent) =
     [sqrt (2 - 2 * exp (- (9 / 40)) + 1 / 1000000)]"
  by (simp add: mmd_loss_def mmd_loss_gaussian_def gaussian_kernel_def pairwise_diff_def
      mean_dims_1_2_def mmd_combine_def tensor_mean_def toy_agent_def toy_substrate_def
      toy_hparams_def BEAR_Agent_init_def eval_nat_numeral algebra_simps)

lemma toy_mmd_at:
  "mmd_loss toy_substrate toy_agent [[1]] 4 1 = [sqrt (2 - 2 * exp (- (9 / 40)) + 1 / 1000000)]"
  using toy_mmd by (simp add: toy_agent_fields)

lemma toy_policy_loss:
  "policy_loss toy_substrate s [[1]] 6 w = - min (q_net1 s * 6) (q_net2 s * 6)"
  by (simp add: policy_loss_rows toy_substrate_def tensor_mean_def)

text \<open>
  C2. While the step counter is not above \<^verbatim>\<open>warmup_step\<close> (so at every step before
  the warm-up count, and also at the step whose counter equals it), the step that
  \<^verbatim>\<open>policy_optimizer\<close> takes on the policy's parameters is the step on the support
  penalty alone: the loss it differentiates is the penalty, its derivative in the
  policy's parameters is the penalty's, and neither the updated policy nor the
  optimizer's state depends on the critics or the temperature. Once the counter is
  above \<^verbatim>\<open>warmup_step\<close>, the step is the one on the sum of the entropy-regularised
  actor-critic term and the penalty, and the derivative of the loss is the sum of
  theirs. The penalty is \<^verbatim>\<open>exp(log_alpha_prime)\<close> times the mean support distance; the
  actor-critic term is the mean over the rows of the batch of the temperature times
  the log-probability of the sampled action, minus the smaller of the two critics'
  estimates at that action.
\<close>

theorem C2_warmup_gate:
  fixes N :: "('w::real_normed_vector, 'o) substrate"
  shows
  "(train_step s \<le> warmup_step (hp s) \<longrightarrow>
      policy_net (update_actor N s obs km kp)
        = snd (adam_step N (policy_optimizer s) (policy_net s)
                 (\<lambda>policy. bear_loss (log_alpha_prime s) (mmd_loss N s obs km policy)))
    \<and> policy_optimizer (update_actor N s obs km kp)
        = fst (adam_step N (policy_optimizer s) (policy_net s)
                 (\<lambda>policy. bear_loss (log_alpha_prime s) (mmd_loss N s obs km policy)))
    \<and> actor_loss N s obs km kp =
        (\<lambda>policy. bear_loss (log_alpha_prime s) (mmd_loss N s obs km policy))
    \<and> (\<forall>B. ((\<lambda>policy. bear_loss (log_alpha_prime s) (mmd_loss N s obs km policy))
               has_derivative B) (at w)
           \<longrightarrow> (actor_loss N s obs km kp has_derivative B) (at w))
    \<and> policy_net (update_actor N (s\<lparr>q_net1 := qa, q_net2 := qb, alpha := al\<rparr>) obs km kp)
        = policy_net (update_actor N s obs km kp)
    \<and> policy_optimizer (update_actor N (s\<lparr>q_net1 := qa, q_net2 := qb, alpha := al\<rparr>) obs km kp)
        = policy_optimizer (update_actor N s obs km kp))
 \<and> (warmup_step (hp s) < train_step s \<longrightarrow>
      policy_net (update_actor N s obs km kp)
        = snd (adam_step N (policy_optimizer s) (policy_net s)
                 (\<lambda>policy. policy_loss N s obs kp policy
                            + bear_loss (log_alpha_prime s) (mmd_loss N s obs km policy)))
    \<and> policy_optimizer (update_actor N s obs km kp)
        = fst (adam_step N (policy_optimizer s) (policy_net s)
                 (\<lambda>policy. policy_loss N s obs kp policy
                            + bear_loss (log_alpha_prime s) (mmd_loss N s obs km policy)))
    \<and> actor_loss N s obs km kp =
        (\<lambda>policy. policy_loss N s obs kp policy
                   + bear_loss (log_alpha_prime s) (mmd_loss N s obs km policy))
    \<and> (\<forall>P B. (policy_loss N s obs kp has_derivative P) (at w)
           \<longrightarrow> ((\<lambda>policy. bear_loss (log_alpha_prime s) (mmd_loss N s obs km policy))
                 has_derivative B) (at w)
           \<longrightarrow> (actor_loss N s obs km kp has_derivative (\<lambda>h. P h + B h)) (at w)))
 \<and> bear_loss (log_alpha_prime s) (mmd_loss N s obs km policy)
      = exp (log_alpha_prime s) * tensor_mean (mmd_loss N s obs km policy)
 \<and> policy_loss N s obs kp policy =
      tensor_mean
        (map (\<lambda>i. let (a, log_prob, mu_action) = policy_row N policy kp i (obs ! i)
                  in alpha s * log_prob
                     - min (q_row N (q_net1 s) (obs ! i) a) (q_row N (q_net2 s) (obs ! i) a))
           [0..<length obs])"
proof (intro conjI impI allI)
  assume le: "train_step s \<le> warmup_step (hp s)"
  show "policy_net (update_actor N s obs km kp)
        = snd (adam_step N (policy_optimizer s) (policy_net s)
                 (\<lambda>policy. bear_loss (log_alpha_prime s) (mmd_loss N s obs km policy)))"
    by (simp add: update_actor_policy actor_loss_warmup [OF le])
  show "policy_optimizer (update_actor N s obs km kp)
        = fst (adam_step N (policy_optimizer s) (policy_net s)
                 (\<lambda>policy. bear_loss (log_alpha_prime s) (mmd_loss N s obs km policy)))"
    by (simp add: update_actor_policy actor_loss_warmup [OF le])
  show "actor_loss N s obs km kp =
        (\<lambda>policy. bear_loss (log_alpha_prime s) (mmd_loss N s obs km policy))"
    by (rule actor_loss_warmup [OF le])
  show "(actor_loss N s obs km kp has_derivative B) (at w)"
    if "((\<lambda>policy. bear_loss (log_alpha_prime s) (mmd_loss N s obs km policy))
          has_derivative B) (at w)" for B
    using that by (simp add: actor_loss_warmup [OF le])
  have frame: "actor_loss N (s\<lparr>q_net1 := qa, q_net2 := qb, alpha := al\<rparr>) obs km kp
        = actor_loss N s obs km kp"
    using le by (simp add: actor_loss_def mmd_loss_frame fun_eq_iff)
  show "policy_net (update_actor N (s\<lparr>q_net1 := qa, q_net2 := qb, alpha := al\<rparr>) obs km kp)
        = policy_net (update_actor N s obs km kp)"
    by (simp add: update_actor_policy frame)
  show "policy_optimizer (update_actor N (s\<lparr>q_net1 := qa, q_net2 := qb, alpha := al\<rparr>) obs km kp)
        = policy_optimizer (update_actor N s obs km kp)"
    by (simp add: update_actor_policy frame)
next
  assume a: "warmup_step (hp s) < train_step s"
  show "policy_net (update_actor N s obs km kp)
        = snd (adam_step N (policy_optimizer s) (policy_net s)
                 (\<lambda>policy. policy_loss N s obs kp policy
                            + bear_loss (log_alpha_prime s) (mmd_loss N s obs km policy)))"
    by (simp add: update_actor_policy actor_loss_after [OF a])
  show "policy_optimizer (update_actor N s obs km kp)
        = fst (adam_step N (policy_optimizer s) (policy_net s)
                 (\<lambda>policy. policy_loss N s obs kp policy
                            + bear_loss (log_alpha_prime s) (mmd_loss N s obs km policy)))"
    by (simp add: update_actor_policy actor_loss_after [OF a])
  show "actor_loss N s obs km kp =
        (\<lambda>policy. policy_loss N s obs kp policy
                   + bear_loss (log_alpha_prime s) (mmd_loss N s obs km policy))"
    by (rule actor_loss_after [OF a])
  show "(actor_loss N s obs km kp has_derivative (\<lambda>h. P h + B h)) (at w)"
    if "(policy_loss N s obs kp has_derivative P) (at w)"
      and "((\<lambda>policy. bear_loss (log_alpha_prime s) (mmd_loss N s obs km policy))
             has_derivative B) (at w)" for P B
    using has_derivative_add [OF that] by (simp add: actor_loss_after [OF a])
next
  show "bear_loss (log_alpha_prime s) (mmd_loss N s obs km policy)
      = exp (log_alpha_prime s) * tensor_mean (mmd_loss N s obs km policy)"
    by (rule bear_loss_scale)
  show "policy_loss N s obs kp policy =
      tensor_mean
        (map (\<lambda>i. let (a, log_prob, mu_action) = policy_row N policy kp i (obs ! i)
                  in alpha s * log_prob
                     - min (q_row N (q_net1 s) (obs ! i) a) (q_row N (q_net2 s) (obs ! i) a))
           [0..<length obs])"
    by (rule policy_loss_rows)
qed

theorem C2_warmup_gate_witness:
  "train_step toy_agent < warmup_step (hp toy_agent)
   \<and> policy_net (update_actor toy_substrate toy_agent [[1]] 4 6)
       = 1 - sqrt (2 - 2 * exp (- (9 / 40)) + 1 / 1000000)
   \<and> policy_net (update_actor toy_substrate (toy_agent\<lparr>q_net1 := 7, q_net2 := 8, alpha := 9\<rparr>)
                    [[1]] 4 6)
       = policy_net (update_actor toy_substrate toy_agent [[1]] 4 6)
   \<and> train_step toy_boundary = warmup_step (hp toy_boundary)
   \<and> policy_net (update_actor toy_substrate toy_boundary [[1]] 4 6)
       = 1 - sqrt (2 - 2 * exp (- (9 / 40)) + 1 / 1000000)
   \<and> warmup_step (hp toy_late) < train_step toy_late
   \<and> policy_net (update_actor toy_substrate toy_late [[1]] 4 6)
       = 13 - sqrt (2 - 2 * exp (- (9 / 40)) + 1 / 1000000)
   \<and> policy_net (update_actor toy_substrate (toy_late\<lparr>q_net1 := 7, q_net2 := 8, alpha := 9\<rparr>)
                    [[1]] 4 6)
       = 43 - sqrt (2 - 2 * exp (- (9 / 40)) + 1 / 1000000)"
proof -
  let ?late = "toy_late\<lparr>q_net1 := 7, q_net2 := 8, alpha := 9\<rparr>"
  have a: "train_step toy_agent \<le> warmup_step (hp toy_agent)"
    by (simp add: toy_agent_fields)
  have b: "train_step toy_boundary \<le> warmup_step (hp toy_boundary)"
    by (simp add: toy_boundary_def toy_agent_fields)
  have c: "warmup_step (hp toy_late) < train_step toy_late"
    by (simp add: toy_late_def toy_agent_fields)
  have d: "warmup_step (hp ?late) < train_step ?late"
    by (simp add: toy_late_def toy_agent_fields)
  note gate = C2_warmup_gate [where N = toy_substrate and obs = "[[1]]" and km = 4 and kp = 6
      and w = 0 and qa = 7 and qb = 8 and al = 9 and policy = 1]
  from gate [where s = toy_agent] a
  have 1: "policy_net (update_actor toy_substrate toy_agent [[1]] 4 6)
       = snd (adam_step toy_substrate (policy_optimizer toy_agent) (policy_net toy_agent)
                (\<lambda>policy. bear_loss (log_alpha_prime toy_agent)
                             (mmd_loss toy_substrate toy_agent [[1]] 4 policy)))"
    and 2: "policy_net (update_actor toy_substrate
                         (toy_agent\<lparr>q_net1 := 7, q_net2 := 8, alpha := 9\<rparr>) [[1]] 4 6)
       = policy_net (update_actor toy_substrate toy_agent [[1]] 4 6)"
    by blast+
  from gate [where s = toy_boundary] b
  have 3: "policy_net (update_actor toy_substrate toy_boundary [[1]] 4 6)
       = snd (adam_step toy_substrate (policy_optimizer toy_boundary) (policy_net toy_boundary)
                (\<lambda>policy. bear_loss (log_alpha_prime toy_boundary)
                             (mmd_loss toy_substrate toy_boundary [[1]] 4 policy)))"
    by blast
  from gate [where s = toy_late] c
  have 4: "policy_net (update_actor toy_substrate toy_late [[1]] 4 6)
       = snd (adam_step toy_substrate (policy_optimizer toy_late) (policy_net toy_late)
                (\<lambda>policy. policy_loss toy_substrate toy_late [[1]] 6 policy
                           + bear_loss (log_alpha_prime toy_late)
                               (mmd_loss toy_substrate toy_late [[1]] 4 policy)))"
    by blast
  from gate [where s = ?late] d
  have 5: "policy_net (update_actor toy_substrate ?late [[1]] 4 6)
       = snd (adam_step toy_substrate (policy_optimizer ?late) (policy_net ?late)
                (\<lambda>policy. policy_loss toy_substrate ?late [[1]] 6 policy
                           + bear_loss (log_alpha_prime ?late)
                               (mmd_loss toy_substrate ?late [[1]] 4 policy)))"
    by blast
  note toy = toy_boundary_def toy_late_def toy_adam_step mmd_loss_train_step mmd_loss_frame
    toy_agent_fields toy_mmd_at toy_policy_loss bear_loss_scale tensor_mean_def
  have 1: "policy_net (update_actor toy_substrate toy_agent [[1]] 4 6)
       = 1 - sqrt (2 - 2 * exp (- (9 / 40)) + 1 / 1000000)"
    unfolding 1 by (simp add: toy)
  have 3: "policy_net (update_actor toy_substrate toy_boundary [[1]] 4 6)
       = 1 - sqrt (2 - 2 * exp (- (9 / 40)) + 1 / 1000000)"
    unfolding 3 by (simp add: toy)
  have 4: "policy_net (update_actor toy_substrate toy_late [[1]] 4 6)
       = 13 - sqrt (2 - 2 * exp (- (9 / 40)) + 1 / 1000000)"
    unfolding 4 by (simp add: toy)
  have 5: "policy_net (update_actor toy_substrate ?late [[1]] 4 6)
       = 43 - sqrt (2 - 2 * exp (- (9 / 40)) + 1 / 1000000)"
    unfolding 5 by (simp add: toy)
  have a': "train_step toy_agent < warmup_step (hp toy_agent)"
    by (simp add: toy_agent_fields)
  have b': "train_step toy_boundary = warmup_step (hp toy_boundary)"
    by (simp add: toy_boundary_def toy_agent_fields)
  from a' 1 2 b' 3 c 4 5 show ?thesis by (intro conjI)
qed

section \<open>The gradients of the multipliers\<close>

text \<open>The gradients that the model hands to \<open>adam_step_scalar\<close> are the derivatives.\<close>

lemma tensor_mean_scale: "tensor_mean (map (\<lambda>m. c * f m) xs) = c * tensor_mean (map f xs)"
  by (simp add: tensor_mean_def sum_list_const_mult)

lemma alpha_prime_loss_has_derivative:
  "((\<lambda>l. alpha_prime_loss thresh l mmd) has_real_derivative
      alpha_prime_loss_grad thresh l mmd) (at l)"
proof -
  let ?c = "tensor_mean (map (\<lambda>m. m - thresh) mmd)"
  have "((\<lambda>l. - (exp l * ?c)) has_real_derivative - (exp l * ?c)) (at l)"
    by (auto intro!: derivative_eq_intros)
  then show ?thesis
    by (simp add: alpha_prime_loss_def [abs_def] alpha_prime_loss_grad_def tensor_mean_scale)
qed

lemma alpha_loss_has_derivative:
  "((\<lambda>l. alpha_loss entropy l log_prob) has_real_derivative
      alpha_loss_grad entropy log_prob) (at l)"
proof -
  let ?c = "tensor_mean (map (\<lambda>lp. lp + entropy) log_prob)"
  have "((\<lambda>l. - (l * ?c)) has_real_derivative - ?c) (at l)"
    by (auto intro!: derivative_eq_intros)
  then show ?thesis
    by (simp add: alpha_loss_def [abs_def] alpha_loss_grad_def tensor_mean_scale)
qed

section \<open>The gradient buffer of the support multiplier\<close>

lemma bear_loss_has_derivative:
  "((\<lambda>l. bear_loss l mmd) has_real_derivative bear_loss_grad l mmd) (at l)"
proof -
  have "((\<lambda>l. exp l * tensor_mean mmd) has_real_derivative exp l * tensor_mean mmd) (at l)"
    by (auto intro!: derivative_eq_intros)
  then show ?thesis
    by (simp add: bear_loss_scale [abs_def] bear_loss_grad_def bear_loss_def [symmetric]
        bear_loss_scale)
qed

text \<open>
  C6 (as the code has it). The support penalty multiplies the support distance by
  \<^verbatim>\<open>self.log_alpha_prime.exp()\<close>, not detached: the backward pass of the policy update
  adds the penalty's derivative in \<^verbatim>\<open>log_alpha_prime\<close> to the multiplier's gradient
  buffer. The policy update changes neither the multiplier nor the state of its
  optimizer, and the multiplier's own update, while its optimizer owns the tensor,
  does not depend on what the buffer held.
\<close>

theorem C6_penalty_not_detached:
  "log_alpha_prime (update_actor N s obs km kp) = log_alpha_prime s
   \<and> alpha_prime_optimizer (update_actor N s obs km kp) = alpha_prime_optimizer s
   \<and> log_alpha_prime_grad (update_actor N s obs km kp) =
       log_alpha_prime_grad s
         + bear_loss_grad (log_alpha_prime s) (mmd_loss N s obs km (policy_net s))
   \<and> ((\<lambda>l. bear_loss l mmd) has_real_derivative bear_loss_grad l mmd) (at l)
   \<and> (log_alpha_prime_owned s \<longrightarrow>
        update_alpha_prime N (s\<lparr>log_alpha_prime_grad := g\<rparr>) mmd = update_alpha_prime N s mmd)"
  by (simp add: update_actor_def update_alpha_prime_def Let_def case_prod_unfold
      bear_loss_has_derivative)

theorem C6_penalty_not_detached_witness:
  "log_alpha_prime_owned toy_agent
   \<and> update_alpha_prime toy_substrate (toy_agent\<lparr>log_alpha_prime_grad := 3\<rparr>) [1]
       = update_alpha_prime toy_substrate toy_agent [1]
   \<and> log_alpha_prime (update_actor toy_substrate toy_agent [[1]] 4 6) = log_alpha_prime toy_agent"
proof -
  have a: "log_alpha_prime_owned toy_agent"
    by (simp add: toy_agent_def BEAR_Agent_init_def)
  from C6_penalty_not_detached [where N = toy_substrate and s = toy_agent and obs = "[[1]]"
      and km = 4 and kp = 6 and mmd = "[1]" and l = 0 and g = 3] a
  show ?thesis by blast
qed

text \<open>
  The claim as it is written (no gradient reaches \<^verbatim>\<open>log_alpha_prime\<close> from the policy
  update) fails: after the policy update of \<open>toy_agent\<close> the buffer has changed.
\<close>

theorem C6_no_gradient_counterexample:
  "log_alpha_prime_grad (update_actor toy_substrate toy_agent [[1]] 4 6)
     \<noteq> log_alpha_prime_grad toy_agent"
proof -
  have "exp (- (9 / 40)) < (1::real)" by simp
  then have "0 < 2 - 2 * exp (- (9 / 40)) + (1 / 1000000 :: real)" by linarith
  then have "sqrt (2 - 2 * exp (- (9 / 40)) + 1 / 1000000) \<noteq> 0" by simp
  then show ?thesis
    by (simp add: update_actor_def Let_def case_prod_unfold toy_mmd bear_loss_grad_def
        tensor_mean_def)
qed

section \<open>The critic target\<close>

lemma upt_10: "[0..<10] = [0, 1, 2, 3, 4, 5, 6, 7, 8, 9]"
  by (simp add: upt_conv_Cons)

lemma upt_5: "[0..<5] = [0, 1, 2, 3, 4]"
  by (simp add: upt_conv_Cons)

lemmas toy_unfold = toy_agent_def toy_five_def toy_substrate_def toy_hparams_def toy_batch_def
  BEAR_Agent_init_def repeat_interleave_def policy_forward_def q_forward_def
  reshape_groups_def eval_nat_numeral

text \<open>
  C3. The specification has one action drawn per repeated next observation and both
  target critics evaluated on it, and the greatest estimate taken over the
  \<open>n_target_samples\<close> draws of a next observation. The code calls the policy once for
  each target critic, so the two estimates combined at a position belong to two
  different draws, and it groups by the constant 10. On \<open>toy_agent\<close> (one transition,
  ten samples) the code's target is \<open>3.97\<close> where the specification's is \<open>3.2275\<close>; with
  five samples the code raises where the specification's target is defined.
\<close>

theorem C3_target_draws_twice:
  "critic_target toy_substrate toy_agent toy_batch 0 = Inr [397 / 100]
   \<and> spec_critic_target toy_substrate toy_agent toy_batch 0 = Inr [1291 / 400]
   \<and> critic_target toy_substrate toy_five toy_batch 0 = Inl ReshapeInvalid
   \<and> spec_critic_target toy_substrate toy_five toy_batch 0 = Inr [1291 / 400]"
proof (intro conjI)
  show "critic_target toy_substrate toy_agent toy_batch 0 = Inr [397 / 100]"
    by (simp add: critic_target_def toy_unfold upt_10)
  show "spec_critic_target toy_substrate toy_agent toy_batch 0 = Inr [1291 / 400]"
    by (simp add: spec_critic_target_def toy_unfold upt_10)
  show "critic_target toy_substrate toy_five toy_batch 0 = Inl ReshapeInvalid"
    by (simp add: critic_target_def toy_unfold upt_5)
  show "spec_critic_target toy_substrate toy_five toy_batch 0 = Inr [1291 / 400]"
    by (simp add: spec_critic_target_def toy_unfold upt_5)
qed

section \<open>The estimator is non-negative\<close>

subsection \<open>Kernels of finitely many features\<close>

lemma sum_list_swap:
  "(\<Sum>x\<leftarrow>xs. \<Sum>y\<leftarrow>ys. h x y) = (\<Sum>y\<leftarrow>ys. \<Sum>x\<leftarrow>xs. (h x y :: real))"
  by (induction xs) (simp_all add: sum_list_addf)

lemma sum_list_times:
  "(\<Sum>x\<leftarrow>xs. a x) * (\<Sum>y\<leftarrow>ys. b y) = (\<Sum>x\<leftarrow>xs. \<Sum>y\<leftarrow>ys. a x * (b y :: real))"
  by (induction xs) (simp_all add: distrib_right sum_list_const_mult)

lemma sum_list_concat_map:
  "sum_list (concat (map f xs)) = (\<Sum>x\<leftarrow>xs. sum_list (f x :: real list))"
  by (induction xs) simp_all

lemma quad_form_feature_sum:
  "quad_form (feature_sum fs) ps = (\<Sum>f\<leftarrow>fs. (\<Sum>p\<leftarrow>ps. fst p * f (snd p)) ^ 2)"
proof -
  have "quad_form (feature_sum fs) ps =
        (\<Sum>p\<leftarrow>ps. \<Sum>q\<leftarrow>ps. \<Sum>f\<leftarrow>fs. (fst p * f (snd p)) * (fst q * f (snd q)))"
    by (simp add: quad_form_def feature_sum_def sum_list_const_mult [symmetric] mult_ac)
  also have "\<dots> = (\<Sum>p\<leftarrow>ps. \<Sum>f\<leftarrow>fs. \<Sum>q\<leftarrow>ps. (fst p * f (snd p)) * (fst q * f (snd q)))"
    by (simp add: sum_list_swap [of _ fs])
  also have "\<dots> = (\<Sum>f\<leftarrow>fs. \<Sum>p\<leftarrow>ps. \<Sum>q\<leftarrow>ps. (fst p * f (snd p)) * (fst q * f (snd q)))"
    by (rule sum_list_swap)
  also have "\<dots> = (\<Sum>f\<leftarrow>fs. (\<Sum>p\<leftarrow>ps. fst p * f (snd p)) ^ 2)"
    by (simp add: power2_eq_square sum_list_times)
  finally show ?thesis .
qed

lemma quad_form_cong:
  assumes "\<And>x y. x \<in> snd ` set ps \<Longrightarrow> y \<in> snd ` set ps \<Longrightarrow> k x y = k' x y"
  shows "quad_form k ps = quad_form k' ps"
  unfolding quad_form_def
  by (intro arg_cong [where f = sum_list] map_cong refl) (simp add: assms)

lemma representable_psd:
  assumes "representable S k"
  shows "positive_semidefinite S k"
  unfolding positive_semidefinite_def
proof (intro allI impI)
  fix ps :: "(real \<times> 'a) list"
  assume sub: "snd ` set ps \<subseteq> S"
  from assms obtain fs where fs: "\<And>x y. x \<in> S \<Longrightarrow> y \<in> S \<Longrightarrow> k x y = feature_sum fs x y"
    by (auto simp: representable_def)
  have "quad_form k ps = quad_form (feature_sum fs) ps"
    using sub by (intro quad_form_cong fs) auto
  also have "\<dots> = (\<Sum>f\<leftarrow>fs. (\<Sum>p\<leftarrow>ps. fst p * f (snd p)) ^ 2)"
    by (rule quad_form_feature_sum)
  also have "0 \<le> \<dots>"
    by (rule sum_list_nonneg) auto
  finally show "0 \<le> quad_form k ps" .
qed

lemma representable_const: "representable S (\<lambda>x y. 1)"
  unfolding representable_def by (rule exI [of _ "[\<lambda>x. 1]"]) (simp add: feature_sum_def)

lemma representable_add:
  assumes "representable S k" "representable S k'"
  shows "representable S (\<lambda>x y. k x y + k' x y)"
proof -
  from assms obtain fs gs where
    "\<forall>x\<in>S. \<forall>y\<in>S. k x y = feature_sum fs x y" "\<forall>x\<in>S. \<forall>y\<in>S. k' x y = feature_sum gs x y"
    by (auto simp: representable_def)
  then have "\<forall>x\<in>S. \<forall>y\<in>S. k x y + k' x y = feature_sum (fs @ gs) x y"
    by (simp add: feature_sum_def)
  then show ?thesis unfolding representable_def ..
qed

lemma representable_mult:
  assumes "representable S k" "representable S k'"
  shows "representable S (\<lambda>x y. k x y * k' x y)"
proof -
  from assms obtain fs gs where
    fs: "\<forall>x\<in>S. \<forall>y\<in>S. k x y = feature_sum fs x y"
    and gs: "\<forall>x\<in>S. \<forall>y\<in>S. k' x y = feature_sum gs x y"
    by (auto simp: representable_def)
  let ?hs = "concat (map (\<lambda>f. map (\<lambda>g. \<lambda>x. f x * g x) gs) fs)"
  have "feature_sum ?hs x y = feature_sum fs x y * feature_sum gs x y" for x y
    by (simp add: feature_sum_def sum_list_times map_concat sum_list_concat_map o_def mult_ac)
  with fs gs have "\<forall>x\<in>S. \<forall>y\<in>S. k x y * k' x y = feature_sum ?hs x y" by simp
  then show ?thesis unfolding representable_def ..
qed

lemma representable_scale:
  assumes "representable S k" "0 \<le> c"
  shows "representable S (\<lambda>x y. c * k x y)"
proof -
  from assms obtain fs where fs: "\<forall>x\<in>S. \<forall>y\<in>S. k x y = feature_sum fs x y"
    by (auto simp: representable_def)
  let ?hs = "map (\<lambda>f. \<lambda>x. sqrt c * f x) fs"
  have "feature_sum ?hs x y = c * feature_sum fs x y" for x y
  proof -
    have "feature_sum ?hs x y = (\<Sum>f\<leftarrow>fs. (sqrt c * sqrt c) * (f x * f y))"
      by (simp add: feature_sum_def o_def mult_ac)
    also have "\<dots> = c * feature_sum fs x y"
      using assms(2) by (simp add: feature_sum_def sum_list_const_mult)
    finally show ?thesis .
  qed
  with fs have "\<forall>x\<in>S. \<forall>y\<in>S. c * k x y = feature_sum ?hs x y" by simp
  then show ?thesis unfolding representable_def ..
qed

lemma representable_conj:
  assumes "representable S k"
  shows "representable S (\<lambda>x y. g x * g y * k x y)"
proof -
  from assms obtain fs where fs: "\<forall>x\<in>S. \<forall>y\<in>S. k x y = feature_sum fs x y"
    by (auto simp: representable_def)
  let ?hs = "map (\<lambda>f. \<lambda>x. g x * f x) fs"
  have "feature_sum ?hs x y = g x * g y * feature_sum fs x y" for x y
  proof -
    have "feature_sum ?hs x y = (\<Sum>f\<leftarrow>fs. (g x * g y) * (f x * f y))"
      by (simp add: feature_sum_def o_def mult_ac)
    also have "\<dots> = g x * g y * feature_sum fs x y"
      by (simp add: feature_sum_def sum_list_const_mult)
    finally show ?thesis .
  qed
  with fs have "\<forall>x\<in>S. \<forall>y\<in>S. g x * g y * k x y = feature_sum ?hs x y" by simp
  then show ?thesis unfolding representable_def ..
qed

lemma representable_comp:
  assumes "representable (h ` S) k"
  shows "representable S (\<lambda>x y. k (h x) (h y))"
proof -
  from assms obtain fs where fs: "\<forall>x\<in>h ` S. \<forall>y\<in>h ` S. k x y = feature_sum fs x y"
    by (auto simp: representable_def)
  let ?hs = "map (\<lambda>f. \<lambda>x. f (h x)) fs"
  have "feature_sum ?hs x y = feature_sum fs (h x) (h y)" for x y
    by (simp add: feature_sum_def o_def)
  with fs have "\<forall>x\<in>S. \<forall>y\<in>S. k (h x) (h y) = feature_sum ?hs x y" by simp
  then show ?thesis unfolding representable_def ..
qed

lemma representable_cong:
  assumes "representable S k" "\<And>x y. x \<in> S \<Longrightarrow> y \<in> S \<Longrightarrow> k' x y = k x y"
  shows "representable S k'"
  using assms unfolding representable_def by (metis (no_types, lifting))

subsection \<open>The minimum kernel, the exponential of a kernel\<close>

lemma representable_zero: "representable S (\<lambda>x y. 0)"
  unfolding representable_def by (rule exI [of _ "[]"]) (simp add: feature_sum_def)

lemma representable_min:
  assumes "finite S" "\<forall>x\<in>S. 0 \<le> v x"
  shows "representable S (\<lambda>x y. min (v x) (v y))"
  using assms(2)
proof (induction "card {x \<in> S. 0 < v x}" arbitrary: v rule: less_induct)
  case less
  let ?P = "{x \<in> S. 0 < v x}"
  show ?case
  proof (cases "?P = {}")
    case True
    with less.prems have "\<forall>x\<in>S. v x = 0" by force
    then show ?thesis
      by (intro representable_cong [OF representable_zero]) simp
  next
    case False
    define m where "m = Min (v ` ?P)"
    have fin: "finite ?P" using assms(1) by simp
    with False have "m \<in> v ` ?P" unfolding m_def by (intro Min_in) auto
    then obtain x0 where x0: "x0 \<in> S" "0 < v x0" "v x0 = m" by auto
    then have mpos: "0 < m" by simp
    have mle: "m \<le> v x" if "x \<in> S" "0 < v x" for x
      unfolding m_def using fin that by (intro Min_le) auto
    define v' where "v' = (\<lambda>x. if 0 < v x then v x - m else 0)"
    have nonneg: "\<forall>x\<in>S. 0 \<le> v' x"
      using mle by (auto simp: v'_def)
    have "{x \<in> S. 0 < v' x} \<subseteq> ?P"
      by (auto simp: v'_def split: if_splits)
    moreover have "x0 \<in> ?P" "x0 \<notin> {x \<in> S. 0 < v' x}"
      using x0 by (auto simp: v'_def)
    ultimately have "{x \<in> S. 0 < v' x} \<subset> ?P" by blast
    then have "card {x \<in> S. 0 < v' x} < card ?P"
      using fin by (rule psubset_card_mono [rotated])
    from less.hyps [OF this nonneg]
    have r: "representable S (\<lambda>x y. min (v' x) (v' y))" .
    define g where "g = (\<lambda>x. sqrt m * (if 0 < v x then 1 else 0))"
    have "representable S (\<lambda>x y. g x * g y * 1)"
      by (rule representable_conj [OF representable_const])
    from representable_add [OF this r]
    have "representable S (\<lambda>x y. g x * g y * 1 + min (v' x) (v' y))" .
    then show ?thesis
    proof (rule representable_cong)
      fix x y assume xy: "x \<in> S" "y \<in> S"
      have x: "v x = 0 \<or> m \<le> v x" using less.prems mle xy by force
      have y: "v y = 0 \<or> m \<le> v y" using less.prems mle xy by force
      have "g x * g y * 1 + min (v' x) (v' y) =
            (if 0 < v x \<and> 0 < v y then m + min (v x - m) (v y - m) else 0)"
        using x y mpos by (auto simp: g_def v'_def)
      also have "\<dots> = min (v x) (v y)"
        using x y mpos by (auto simp: min_def)
      finally show "min (v x) (v y) = g x * g y * 1 + min (v' x) (v' y)" by simp
    qed
  qed
qed

lemma representable_laplace1:
  assumes "finite A" "0 < c"
  shows "representable A (\<lambda>a b. exp (- \<bar>a - b\<bar> / c))"
proof -
  define g where "g = (\<lambda>a. exp (- a / c))"
  define v where "v = (\<lambda>a. exp (2 * a / c))"
  have "representable A (\<lambda>a b. min (v a) (v b))"
    by (rule representable_min [OF assms(1)]) (simp add: v_def)
  then have "representable A (\<lambda>a b. g a * g b * min (v a) (v b))"
    by (rule representable_conj)
  then show ?thesis
  proof (rule representable_cong)
    fix a b :: real
    have "- \<bar>a - b\<bar> = - a + - b + 2 * min a b" by (auto simp: min_def)
    then have "- \<bar>a - b\<bar> / c = - a / c + - b / c + 2 * min a b / c"
      by (simp only: add_divide_distrib)
    then have "exp (- \<bar>a - b\<bar> / c) = exp (- a / c + - b / c + 2 * min a b / c)"
      by (rule arg_cong)
    also have "\<dots> = g a * g b * exp (2 * min a b / c)"
      by (simp only: exp_add g_def)
    also have "exp (2 * min a b / c) = min (v a) (v b)"
      using assms(2) by (auto simp: v_def min_def divide_le_cancel)
    finally show "exp (- \<bar>a - b\<bar> / c) = g a * g b * min (v a) (v b)" .
  qed
qed

lemma representable_power:
  assumes "representable S k"
  shows "representable S (\<lambda>x y. k x y ^ p)"
proof (induction p)
  case 0
  show ?case by (simp add: representable_const)
next
  case (Suc p)
  from representable_mult [OF assms Suc] show ?case by simp
qed

lemma representable_exp_partial:
  assumes "representable S k"
  shows "representable S (\<lambda>x y. \<Sum>p<M. k x y ^ p /\<^sub>R fact p)"
proof (induction M)
  case 0
  show ?case by (simp add: representable_zero)
next
  case (Suc M)
  have "representable S (\<lambda>x y. inverse (fact M) * k x y ^ M)"
    by (rule representable_scale [OF representable_power [OF assms]]) simp
  from representable_add [OF Suc this] show ?case by simp
qed

lemma tendsto_sum_list:
  assumes "\<And>x. x \<in> set xs \<Longrightarrow> (\<lambda>n. f n x) \<longlonglongrightarrow> (l x :: real)"
  shows "(\<lambda>n. \<Sum>x\<leftarrow>xs. f n x) \<longlonglongrightarrow> (\<Sum>x\<leftarrow>xs. l x)"
  using assms by (induction xs) (auto intro!: tendsto_add)

lemma psd_exp:
  assumes "representable S k"
  shows "positive_semidefinite S (\<lambda>x y. exp (k x y))"
  unfolding positive_semidefinite_def
proof (intro allI impI)
  fix ps :: "(real \<times> 'a) list"
  assume sub: "snd ` set ps \<subseteq> S"
  let ?E = "\<lambda>M x y. \<Sum>p<M. k x y ^ p /\<^sub>R fact p"
  have lim: "(\<lambda>M. ?E M x y) \<longlonglongrightarrow> exp (k x y)" for x y
    using exp_converges [of "k x y"] by (simp add: sums_def)
  have "(\<lambda>M. quad_form (?E M) ps) \<longlonglongrightarrow> quad_form (\<lambda>x y. exp (k x y)) ps"
    unfolding quad_form_def
    by (intro tendsto_sum_list tendsto_mult tendsto_const lim)
  moreover have "0 \<le> quad_form (?E M) ps" for M
    using representable_psd [OF representable_exp_partial [OF assms, of M]] sub
    by (simp add: positive_semidefinite_def)
  ultimately show "0 \<le> quad_form (\<lambda>x y. exp (k x y)) ps"
    by (intro LIMSEQ_le_const) auto
qed

lemma psd_conj:
  assumes "positive_semidefinite S k"
  shows "positive_semidefinite S (\<lambda>x y. g x * g y * k x y)"
  unfolding positive_semidefinite_def
proof (intro allI impI)
  fix ps :: "(real \<times> 'a) list"
  assume sub: "snd ` set ps \<subseteq> S"
  let ?qs = "map (\<lambda>p. (fst p * g (snd p), snd p)) ps"
  have "quad_form (\<lambda>x y. g x * g y * k x y) ps = quad_form k ?qs"
    by (simp add: quad_form_def o_def mult_ac)
  moreover have "snd ` set ?qs \<subseteq> S" using sub by auto
  ultimately show "0 \<le> quad_form (\<lambda>x y. g x * g y * k x y) ps"
    using assms by (simp add: positive_semidefinite_def)
qed

lemma psd_cong:
  assumes "positive_semidefinite S k" "\<And>x y. x \<in> S \<Longrightarrow> y \<in> S \<Longrightarrow> k' x y = k x y"
  shows "positive_semidefinite S k'"
  unfolding positive_semidefinite_def
proof (intro allI impI)
  fix ps :: "(real \<times> 'a) list"
  assume sub: "snd ` set ps \<subseteq> S"
  have "quad_form k' ps = quad_form k ps"
    using sub by (intro quad_form_cong assms(2)) auto
  with assms(1) sub show "0 \<le> quad_form k' ps"
    by (simp add: positive_semidefinite_def)
qed

subsection \<open>The estimator as a quadratic form\<close>

lemma kernel_mean_eq:
  "kernel_mean k xs ys = (\<Sum>x\<leftarrow>xs. \<Sum>y\<leftarrow>ys. k x y) / (real (length xs) * real (length ys))"
proof -
  have "length (concat (map (\<lambda>x. map (k x) ys) xs)) = length xs * length ys"
    by (induction xs) simp_all
  then show ?thesis
    by (simp add: kernel_mean_def tensor_mean_def sum_list_concat_map)
qed

lemma quad_form_two_samples:
  assumes "\<And>x y. x \<in> set xs \<Longrightarrow> y \<in> set ys \<Longrightarrow> k y x = k x y"
  shows "quad_form k (map (Pair a) xs @ map (Pair b) ys) =
         a * a * (\<Sum>x\<leftarrow>xs. \<Sum>y\<leftarrow>xs. k x y) + b * b * (\<Sum>x\<leftarrow>ys. \<Sum>y\<leftarrow>ys. k x y)
         + 2 * (a * b) * (\<Sum>x\<leftarrow>xs. \<Sum>y\<leftarrow>ys. k x y)"
proof -
  have sym: "(\<Sum>y\<leftarrow>ys. \<Sum>x\<leftarrow>xs. k y x) = (\<Sum>x\<leftarrow>xs. \<Sum>y\<leftarrow>ys. k x y)"
  proof -
    have "(\<Sum>y\<leftarrow>ys. \<Sum>x\<leftarrow>xs. k y x) = (\<Sum>x\<leftarrow>xs. \<Sum>y\<leftarrow>ys. k y x)"
      by (rule sum_list_swap)
    also have "\<dots> = (\<Sum>x\<leftarrow>xs. \<Sum>y\<leftarrow>ys. k x y)"
      by (intro arg_cong [where f = sum_list] map_cong refl) (simp add: assms)
    finally show ?thesis .
  qed
  have "quad_form k (map (Pair a) xs @ map (Pair b) ys) =
        (\<Sum>x\<leftarrow>xs. \<Sum>y\<leftarrow>xs. a * a * k x y) + (\<Sum>x\<leftarrow>xs. \<Sum>y\<leftarrow>ys. a * b * k x y)
        + ((\<Sum>y\<leftarrow>ys. \<Sum>x\<leftarrow>xs. b * a * k y x) + (\<Sum>x\<leftarrow>ys. \<Sum>y\<leftarrow>ys. b * b * k x y))"
    by (simp add: quad_form_def o_def sum_list_addf)
  also have "\<dots> = a * a * (\<Sum>x\<leftarrow>xs. \<Sum>y\<leftarrow>xs. k x y) + a * b * (\<Sum>x\<leftarrow>xs. \<Sum>y\<leftarrow>ys. k x y)
        + (b * a * (\<Sum>y\<leftarrow>ys. \<Sum>x\<leftarrow>xs. k y x) + b * b * (\<Sum>x\<leftarrow>ys. \<Sum>y\<leftarrow>ys. k x y))"
    by (simp only: sum_list_const_mult)
  finally show ?thesis by (simp add: sym)
qed

lemma mmd_argument_nonneg:
  assumes "positive_semidefinite S k" "set xs \<subseteq> S" "set ys \<subseteq> S" "xs \<noteq> []" "ys \<noteq> []"
    and "\<And>x y. x \<in> S \<Longrightarrow> y \<in> S \<Longrightarrow> k y x = k x y"
  shows "0 \<le> kernel_mean k xs xs + kernel_mean k ys ys - 2 * kernel_mean k xs ys"
proof -
  define a where "a = 1 / real (length xs)"
  define b where "b = - (1 / real (length ys))"
  let ?ps = "map (Pair a) xs @ map (Pair b) ys"
  have "snd ` set ?ps \<subseteq> S" using assms(2,3) by auto
  with assms(1) have "0 \<le> quad_form k ?ps" by (simp add: positive_semidefinite_def)
  also have "quad_form k ?ps =
         a * a * (\<Sum>x\<leftarrow>xs. \<Sum>y\<leftarrow>xs. k x y) + b * b * (\<Sum>x\<leftarrow>ys. \<Sum>y\<leftarrow>ys. k x y)
         + 2 * (a * b) * (\<Sum>x\<leftarrow>xs. \<Sum>y\<leftarrow>ys. k x y)"
    using assms(2,3) by (intro quad_form_two_samples assms(6)) auto
  also have "\<dots> = kernel_mean k xs xs + kernel_mean k ys ys - 2 * kernel_mean k xs ys"
    by (simp add: kernel_mean_eq a_def b_def)
  finally show ?thesis .
qed

subsection \<open>The Gaussian and the Laplacian kernel\<close>

lemma term_sym:
  "gaussian_term sigma y x = gaussian_term sigma x y"
  "laplacian_term sigma y x = laplacian_term sigma x y"
proof -
  have z: "zip y x = map (\<lambda>(a, b). (b, a)) (zip x y)" by (rule zip_commute)
  show "gaussian_term sigma y x = gaussian_term sigma x y"
    unfolding gaussian_term_def z
    by (simp add: o_def case_prod_unfold power2_commute)
  show "laplacian_term sigma y x = laplacian_term sigma x y"
    unfolding laplacian_term_def z
    by (simp add: o_def case_prod_unfold abs_minus_commute)
qed

lemma sum_list_upt: "sum_list (map f [0..<d]) = (\<Sum>k<d. (f k :: real))"
  by (simp add: interv_sum_list_conv_sum_set_nat atLeast0LessThan)

lemma representable_dot:
  assumes "0 < sigma"
  shows "representable S (\<lambda>x y. (\<Sum>k<d. x ! k * y ! k) / sigma)"
  unfolding representable_def
proof (rule exI [of _ "map (\<lambda>k x. x ! k / sqrt sigma) [0..<d]"], intro ballI)
  fix x y :: "real list"
  have "feature_sum (map (\<lambda>k x. x ! k / sqrt sigma) [0..<d]) x y =
        (\<Sum>k<d. (x ! k / sqrt sigma) * (y ! k / sqrt sigma))"
    by (simp add: feature_sum_def o_def sum_list_upt)
  also have "\<dots> = (\<Sum>k<d. x ! k * y ! k / sigma)"
    using assms by (intro sum.cong refl) (simp add: field_simps)
  also have "\<dots> = (\<Sum>k<d. x ! k * y ! k) / sigma"
    by (simp add: sum_divide_distrib)
  finally show "(\<Sum>k<d. x ! k * y ! k) / sigma =
      feature_sum (map (\<lambda>k x. x ! k / sqrt sigma) [0..<d]) x y" by simp
qed

lemma split_square_distance:
  "- (A + B - 2 * C) / (2 * s) = - A / (2 * s) + - B / (2 * s) + C / (s :: real)"
  by (simp add: add_divide_distrib diff_divide_distrib)

lemma gaussian_term_factor:
  assumes "length x = d" "length y = d"
  shows "gaussian_term sigma x y =
         exp (- (\<Sum>k<d. (x ! k)\<^sup>2) / (2 * sigma)) * exp (- (\<Sum>k<d. (y ! k)\<^sup>2) / (2 * sigma))
         * exp ((\<Sum>k<d. x ! k * y ! k) / sigma)"
proof -
  have "sum_list (map (\<lambda>v. v ^ 2) (map2 (-) x y)) = sq_euclidean x y"
    using assms by (intro sum_squares_diff) simp
  also have "\<dots> = (\<Sum>k<d. (x ! k)\<^sup>2) + (\<Sum>k<d. (y ! k)\<^sup>2) - 2 * (\<Sum>k<d. x ! k * y ! k)"
    using assms(1)
    by (simp add: sq_euclidean_def power2_diff sum.distrib sum_subtractf sum_distrib_left
        mult_ac)
  finally have "- sum_list (map (\<lambda>v. v ^ 2) (map2 (-) x y)) / (2 * sigma) =
        - (\<Sum>k<d. (x ! k)\<^sup>2) / (2 * sigma) + - (\<Sum>k<d. (y ! k)\<^sup>2) / (2 * sigma)
        + (\<Sum>k<d. x ! k * y ! k) / sigma"
    by (simp only: split_square_distance)
  then show ?thesis
    by (simp only: gaussian_term_def exp_add)
qed

lemma psd_gaussian:
  assumes "0 < sigma"
  shows "positive_semidefinite {x. length x = d} (gaussian_term sigma)"
proof -
  define g where "g = (\<lambda>x :: real list. exp (- (\<Sum>k<d. (x ! k)\<^sup>2) / (2 * sigma)))"
  have "positive_semidefinite {x. length x = d}
          (\<lambda>x y. g x * g y * exp ((\<Sum>k<d. x ! k * y ! k) / sigma))"
    by (intro psd_conj psd_exp representable_dot assms)
  then show ?thesis
    by (rule psd_cong) (simp add: gaussian_term_factor g_def)
qed

lemma laplacian_term_Cons:
  "laplacian_term sigma (a # x) (b # y) =
     exp (- \<bar>a - b\<bar> / (2 * sigma)) * laplacian_term sigma x y"
proof -
  have "sum_list (map abs (map2 (-) (a # x) (b # y))) =
        \<bar>a - b\<bar> + sum_list (map abs (map2 (-) x y))"
    by simp
  moreover have "- (p + q) / (2 * sigma) = - p / (2 * sigma) + - q / (2 * sigma)" for p q
    by (simp add: diff_divide_distrib)
  ultimately show ?thesis
    by (simp only: laplacian_term_def exp_add)
qed

lemma representable_laplacian:
  assumes "0 < sigma"
  shows "finite T \<Longrightarrow> \<forall>x\<in>T. length x = d \<Longrightarrow> representable T (laplacian_term sigma)"
proof (induction d arbitrary: T)
  case 0
  have "representable T (\<lambda>x y. 1 :: real)" by (rule representable_const)
  then show ?case
    by (rule representable_cong) (use 0 in \<open>auto simp: laplacian_term_def\<close>)
next
  case (Suc d)
  have "representable (hd ` T) (\<lambda>a b. exp (- \<bar>a - b\<bar> / (2 * sigma)))"
    using Suc.prems(1) assms by (intro representable_laplace1) simp_all
  then have h: "representable T (\<lambda>x y. exp (- \<bar>hd x - hd y\<bar> / (2 * sigma)))"
    by (rule representable_comp)
  have "representable (tl ` T) (laplacian_term sigma)"
    using Suc.prems by (intro Suc.IH) auto
  then have t: "representable T (\<lambda>x y. laplacian_term sigma (tl x) (tl y))"
    by (rule representable_comp)
  from representable_mult [OF h t] show ?case
  proof (rule representable_cong)
    fix x y assume "x \<in> T" "y \<in> T"
    with Suc.prems(2) obtain a x' b y' where "x = a # x'" "y = b # y'"
      by (metis length_Suc_conv)
    then show "laplacian_term sigma x y =
        exp (- \<bar>hd x - hd y\<bar> / (2 * sigma)) * laplacian_term sigma (tl x) (tl y)"
      by (simp add: laplacian_term_Cons)
  qed
qed

lemma kernel_nonneg:
  assumes "0 < sigma" "xs \<noteq> []" "ys \<noteq> []" "\<forall>x\<in>set xs \<union> set ys. length x = d"
  shows "0 \<le> kernel_mean (gaussian_term sigma) xs xs + kernel_mean (gaussian_term sigma) ys ys
              - 2 * kernel_mean (gaussian_term sigma) xs ys"
    and "0 \<le> kernel_mean (laplacian_term sigma) xs xs + kernel_mean (laplacian_term sigma) ys ys
              - 2 * kernel_mean (laplacian_term sigma) xs ys"
proof -
  show "0 \<le> kernel_mean (gaussian_term sigma) xs xs + kernel_mean (gaussian_term sigma) ys ys
              - 2 * kernel_mean (gaussian_term sigma) xs ys"
    using assms
    by (intro mmd_argument_nonneg [OF psd_gaussian [of sigma d]]) (auto simp: term_sym)
  have "representable (set xs \<union> set ys) (laplacian_term sigma)"
    using assms by (intro representable_laplacian [of sigma _ d]) auto
  then have "positive_semidefinite (set xs \<union> set ys) (laplacian_term sigma)"
    by (rule representable_psd)
  then show "0 \<le> kernel_mean (laplacian_term sigma) xs xs + kernel_mean (laplacian_term sigma) ys ys
              - 2 * kernel_mean (laplacian_term sigma) xs ys"
    using assms by (intro mmd_argument_nonneg) (auto simp: term_sym)
qed

subsection \<open>The estimator\<close>

lemma term_fun:
  "gaussian_term sigma x =
     (\<lambda>y. exp (- sum_list (map (\<lambda>v. v ^ 2) (map2 (-) x y)) / (2 * sigma)))"
  "laplacian_term sigma x = (\<lambda>y. exp (- sum_list (map abs (map2 (-) x y)) / (2 * sigma)))"
  by (simp_all add: fun_eq_iff gaussian_term_def laplacian_term_def)

lemma mean_gaussian_kernel:
  "mean_dims_1_2 (gaussian_kernel a b sigma) = map2 (kernel_mean (gaussian_term sigma)) a b"
  by (simp add: mean_dims_1_2_def gaussian_kernel_def pairwise_diff_def kernel_mean_def
      term_fun o_def case_prod_unfold)

lemma mean_laplacian_kernel:
  "mean_dims_1_2 (laplacian_kernel a b sigma) = map2 (kernel_mean (laplacian_term sigma)) a b"
  by (simp add: mean_dims_1_2_def laplacian_kernel_def pairwise_diff_def kernel_mean_def
      term_fun o_def case_prod_unfold)

lemma mmd_combine_nth:
  assumes "n < length a" "n < length b"
  shows "mmd_combine (map2 k a a) (map2 k a b) (map2 k b b) ! n =
     sqrt (k (a ! n) (a ! n) + k (b ! n) (b ! n) - 2 * k (a ! n) (b ! n) + 0.000001)"
  using assms by (simp add: mmd_combine_def)

lemma length_mmd_combine:
  "length (mmd_combine (map2 k a a) (map2 k a b) (map2 k b b)) = min (length a) (length b)"
  by (simp add: mmd_combine_def)

lemma sqrt_epsilon: "sqrt 0.000001 = 1 / 1000"
  by (rule real_sqrt_unique) (simp_all add: power2_eq_square)

text \<open>
  C4. For a positive bandwidth and two batches of non-empty sample sets whose points
  all have the same dimension, both estimators return one non-negative value per batch
  item: the sum under the root is a quadratic form of a positive semidefinite kernel
  plus \<open>10\<^sup>-\<^sup>6\<close>. When the two batches are the same, the three means cancel and the value
  is the root of the constant, \<open>10\<^sup>-\<^sup>3\<close>.
\<close>

theorem C4_mmd_nonneg:
  assumes "0 < sigma" "length samples1 = length samples2"
    and "\<forall>n<length samples1. samples1 ! n \<noteq> [] \<and> (\<forall>x\<in>set (samples1 ! n). length x = d)"
    and "\<forall>n<length samples2. samples2 ! n \<noteq> [] \<and> (\<forall>x\<in>set (samples2 ! n). length x = d)"
  shows "length (mmd_loss_gaussian samples1 samples2 sigma) = length samples1
       \<and> length (mmd_loss_laplacian samples1 samples2 sigma) = length samples1
       \<and> (\<forall>n<length samples1. 0 \<le> mmd_loss_gaussian samples1 samples2 sigma ! n)
       \<and> (\<forall>n<length samples1. 0 \<le> mmd_loss_laplacian samples1 samples2 sigma ! n)
       \<and> (\<forall>n<length samples1. mmd_loss_gaussian samples1 samples1 sigma ! n = 1 / 1000)
       \<and> (\<forall>n<length samples1. mmd_loss_laplacian samples1 samples1 sigma ! n = 1 / 1000)"
proof (intro conjI allI impI)
  show "length (mmd_loss_gaussian samples1 samples2 sigma) = length samples1"
    using assms(2) by (simp add: mmd_loss_gaussian_def mean_gaussian_kernel length_mmd_combine)
  show "length (mmd_loss_laplacian samples1 samples2 sigma) = length samples1"
    using assms(2) by (simp add: mmd_loss_laplacian_def mean_laplacian_kernel length_mmd_combine)
next
  fix n assume n: "n < length samples1"
  with assms(2) have n2: "n < length samples2" by simp
  from assms(3,4) n n2 have shape: "samples1 ! n \<noteq> []" "samples2 ! n \<noteq> []"
    "\<forall>x\<in>set (samples1 ! n) \<union> set (samples2 ! n). length x = d"
    by auto
  from kernel_nonneg(1) [OF assms(1) shape]
  show "0 \<le> mmd_loss_gaussian samples1 samples2 sigma ! n"
    using n n2 by (simp add: mmd_loss_gaussian_def mean_gaussian_kernel mmd_combine_nth)
  from kernel_nonneg(2) [OF assms(1) shape]
  show "0 \<le> mmd_loss_laplacian samples1 samples2 sigma ! n"
    using n n2 by (simp add: mmd_loss_laplacian_def mean_laplacian_kernel mmd_combine_nth)
  show "mmd_loss_gaussian samples1 samples1 sigma ! n = 1 / 1000"
    using n sqrt_epsilon
    by (simp add: mmd_loss_gaussian_def mean_gaussian_kernel mmd_combine_nth)
  show "mmd_loss_laplacian samples1 samples1 sigma ! n = 1 / 1000"
    using n sqrt_epsilon
    by (simp add: mmd_loss_laplacian_def mean_laplacian_kernel mmd_combine_nth)
qed

theorem C4_mmd_nonneg_witness:
  "0 \<le> mmd_loss_gaussian [[[1, 2], [0, 0]]] [[[0, 0], [3, 1]]] 2 ! 0
   \<and> 0 \<le> mmd_loss_laplacian [[[1, 2], [0, 0]]] [[[0, 0], [3, 1]]] 2 ! 0
   \<and> mmd_loss_gaussian [[[1, 2], [0, 0]]] [[[1, 2], [0, 0]]] 2 ! 0 = 1 / 1000
   \<and> mmd_loss_laplacian [[[1, 2], [0, 0]]] [[[1, 2], [0, 0]]] 2 ! 0 = 1 / 1000"
  using C4_mmd_nonneg [of 2 "[[[1, 2], [0, 0]]]" "[[[0, 0], [3, 1]]]" 2]
  by simp

end
